theory Spec2Isabelle
  imports Main
begin

section \<open>The Firebolt driver: data model\<close>

text \<open>
  The development follows \<^verbatim>\<open>packages/cubejs-firebolt-driver/src/FireboltDriver.ts\<close>.
  JavaScript objects are modelled as maps from property names to values (their own
  properties; what the prototype chain adds is written out where the code meets it),
  strings as lists of characters, and a
  thrown value as an \<open>error\<close> carrying its optional numeric \<open>status\<close> property.
\<close>

datatype jsval =
    JNull
  | JUndefined
  | JBool bool
  | JInt int
  | JNum string
  | JStr string
  | JArr "jsval list"
  | JObj "(string \<times> jsval) list"

text \<open>
  \<open>JInt i\<close> is a numeric value that holds the integer \<open>i\<close>: a JavaScript number when \<open>i\<close>
  is a safe integer (below \<open>2^53\<close> in magnitude), beyond that the big-number object the
  client's JSON parser builds for a long integer. \<open>JNum s\<close> is any other JavaScript
  number (a fraction, a double beyond the safe integers, an infinity, \<open>NaN\<close>), given by
  the string \<open>s\<close> that its conversion to a string yields.
\<close>

datatype error = Error (status: "int option") (message: string)

record Meta =
  name :: string
  type :: string

type_synonym Row = "string \<Rightarrow> jsval"
  \<comment> \<open>a row as the driver reads it: \<open>row[key]\<close>, \<open>JUndefined\<close> where the key is missing\<close>

type_synonym HydratedRow = "string \<rightharpoonup> jsval"
  \<comment> \<open>the object built by \<open>hydrateRow\<close>: its own properties\<close>

subsection \<open>String conversion and truthiness of values\<close>

definition digit_char :: "nat \<Rightarrow> char" where
  "digit_char d = ''0123456789'' ! d"

fun dec_nat :: "nat \<Rightarrow> string" where
  "dec_nat n = (if n < 10 then [digit_char n] else dec_nat (n div 10) @ [digit_char (n mod 10)])"

declare dec_nat.simps [simp del]

definition dec_int :: "int \<Rightarrow> string" where
  "dec_int i = (if i < 0 then CHR ''-'' # dec_nat (nat (- i)) else dec_nat (nat i))"

text \<open>The value a string of decimal digits denotes, most significant digit first.\<close>

definition digit_value :: "char \<Rightarrow> nat" where
  "digit_value c = of_char c - of_char (CHR ''0'')"

definition dec_value :: "string \<Rightarrow> nat" where
  "dec_value s = foldl (\<lambda>a c. 10 * a + digit_value c) 0 s"

text \<open>
  The string of an integer-valued number: the plain numeral below \<open>10^21\<close>; from there on
  exponent notation, the digits without their trailing zeros, a point after the first
  of them if more follow, and the decimal exponent.
\<close>

definition strip_zeros :: "string \<Rightarrow> string" where
  "strip_zeros ds = rev (dropWhile (\<lambda>c. c = CHR ''0'') (rev ds))"

definition exponent_string :: "nat \<Rightarrow> string" where
  "exponent_string n =
     (case strip_zeros (dec_nat n) of
        [] \<Rightarrow> []
      | d # ds \<Rightarrow> d # (if ds = [] then [] else CHR ''.'' # ds))
     @ ''e+'' @ dec_nat (length (dec_nat n) - 1)"

definition nat_string :: "nat \<Rightarrow> string" where
  "nat_string n = (if n < 10 ^ 21 then dec_nat n else exponent_string n)"

definition int_string :: "int \<Rightarrow> string" where
  "int_string i = (if i < 0 then CHR ''-'' # nat_string (nat (- i)) else nat_string (nat i))"

text \<open>The template literal \<^verbatim>\<open>`${value}`\<close>: JavaScript's conversion of a value to a string.\<close>

fun join :: "string \<Rightarrow> string list \<Rightarrow> string" where
  "join sep [] = []"
| "join sep [x] = x"
| "join sep (x # y # ys) = x @ sep @ join sep (y # ys)"

fun to_string :: "jsval \<Rightarrow> string" where
  "to_string JNull = ''null''"
| "to_string JUndefined = ''undefined''"
| "to_string (JBool b) = (if b then ''true'' else ''false'')"
| "to_string (JInt i) = int_string i"
| "to_string (JNum s) = s"
| "to_string (JStr s) = s"
| "to_string (JArr vs) =
     join '','' (map (\<lambda>v. if v = JNull \<or> v = JUndefined then [] else to_string v) vs)"
| "to_string (JObj ps) = ''[object Object]''"

text \<open>Boolean coercion \<^verbatim>\<open>!!v\<close>.\<close>

fun truthy :: "jsval \<Rightarrow> bool" where
  "truthy JNull = False"
| "truthy JUndefined = False"
| "truthy (JBool b) = b"
| "truthy (JInt i) = (i \<noteq> 0)"
| "truthy (JNum s) = (s \<noteq> ''NaN'')"
| "truthy (JStr s) = (s \<noteq> [])"
| "truthy (JArr vs) = True"
| "truthy (JObj ps) = True"

section \<open>Type mapping\<close>

text \<open>\<^verbatim>\<open>const FireboltTypeToGeneric: Record<string, string> = { long: 'bigint' }\<close>\<close>

definition FireboltTypeToGeneric :: "string \<rightharpoonup> string" where
  "FireboltTypeToGeneric = [''long'' \<mapsto> ''bigint'']"

text \<open>
  The table is an ordinary object: besides its own key, the \<open>in\<close> operator and a property
  read find the members it inherits from \<open>Object.prototype\<close>.
\<close>

definition Object_prototype_names :: "string list" where
  "Object_prototype_names =
     [''constructor'', ''__defineGetter__'', ''__defineSetter__'', ''hasOwnProperty'',
      ''__lookupGetter__'', ''__lookupSetter__'', ''isPrototypeOf'', ''propertyIsEnumerable'',
      ''toString'', ''valueOf'', ''__proto__'', ''toLocaleString'']"

text \<open>
  What \<open>toGenericType\<close> returns: a type name, \<open>undefined\<close>, or the inherited member of
  that name (a built-in function; for \<open>__proto__\<close> the prototype object).
\<close>

datatype generic_type = Generic string | Undefined | Inherited string

text \<open>\<^verbatim>\<open>columnType in FireboltTypeToGeneric\<close> and \<^verbatim>\<open>FireboltTypeToGeneric[columnType]\<close>.\<close>

definition in_table :: "string \<Rightarrow> bool" where
  "in_table k = (FireboltTypeToGeneric k \<noteq> None \<or> k \<in> set Object_prototype_names)"

definition table_get :: "string \<Rightarrow> generic_type" where
  "table_get k =
     (case FireboltTypeToGeneric k of
        Some g \<Rightarrow> Generic g
      | None \<Rightarrow> (if k \<in> set Object_prototype_names then Inherited k else Undefined))"

text \<open>
  \<^verbatim>\<open>const COMPLEX_TYPE = /(nullable|array)\((.+)\)/\<close>. The dot matches every character
  but a line terminator, and \<open>.+\<close> is greedy: the inner type is the longest non-empty
  run that a closing parenthesis follows.
\<close>

definition line_terminator :: "char \<Rightarrow> bool" where
  "line_terminator c = (c = CHR 0x0A \<or> c = CHR 0x0D)"

fun greedy_inner :: "string \<Rightarrow> string option" where
  "greedy_inner [] = None"
| "greedy_inner (c # cs) =
     (case greedy_inner cs of
        Some x \<Rightarrow> Some (c # x)
      | None \<Rightarrow> (case cs of d # _ \<Rightarrow> (if d = CHR '')'' then Some [c] else None) | [] \<Rightarrow> None))"

definition paren_inner :: "string \<Rightarrow> string option" where
  "paren_inner r =
     (case r of
        [] \<Rightarrow> None
      | p # t \<Rightarrow> (if p = CHR ''('' then greedy_inner (takeWhile (\<lambda>c. \<not> line_terminator c) t) else None))"

definition match_here :: "string \<Rightarrow> (string \<times> string) option" where
  "match_here s =
     (if take 8 s = ''nullable'' then map_option (Pair ''nullable'') (paren_inner (drop 8 s))
      else if take 5 s = ''array'' then map_option (Pair ''array'') (paren_inner (drop 5 s))
      else None)"

text \<open>\<^verbatim>\<open>columnType.match(COMPLEX_TYPE)\<close>: the leftmost match, as (outer type, inner type).\<close>

fun COMPLEX_TYPE_match :: "string \<Rightarrow> (string \<times> string) option" where
  "COMPLEX_TYPE_match [] = None"
| "COMPLEX_TYPE_match (c # cs) =
     (case match_here (c # cs) of Some m \<Rightarrow> Some m | None \<Rightarrow> COMPLEX_TYPE_match cs)"

text \<open>
  \<open>toGenericType\<close>. The base class mapping \<^verbatim>\<open>super.toGenericType\<close> lives in the base
  driver package and is a parameter here.
\<close>

definition toGenericType :: "(string \<Rightarrow> string) \<Rightarrow> string \<Rightarrow> generic_type" where
  "toGenericType super_toGenericType columnType =
     (if in_table columnType then table_get columnType
      else (case COMPLEX_TYPE_match columnType of
              Some (outerType, innerType) \<Rightarrow>
                (if in_table columnType then table_get innerType
                 else Generic (super_toGenericType columnType))
            | None \<Rightarrow> Generic (super_toGenericType columnType)))"

section \<open>Row hydration\<close>

text \<open>\<open>isNumberType\<close> is exported by the client library and is a parameter.\<close>

definition getHydratedValue :: "(string \<Rightarrow> bool) \<Rightarrow> jsval \<Rightarrow> Meta \<Rightarrow> jsval" where
  "getHydratedValue isNumberType v meta =
     (if isNumberType (type meta) \<and> v \<noteq> JNull then JStr (to_string v) else v)"

text \<open>
  The loop of \<open>hydrateRow\<close> over the columns, with the own properties of the object under
  construction. An assignment to \<open>__proto__\<close> goes to the setter inherited from
  \<open>Object.prototype\<close> and creates no property; the setter is lost when such an assignment
  sets the prototype to \<open>null\<close>, which the flag records.
\<close>

fun hydrateRow_loop ::
  "(string \<Rightarrow> bool) \<Rightarrow> Row \<Rightarrow> Meta list \<Rightarrow> HydratedRow \<times> bool \<Rightarrow> HydratedRow \<times> bool" where
  "hydrateRow_loop isNumberType row [] obj = obj"
| "hydrateRow_loop isNumberType row (column # rest) (hydratedRow, proto_setter) =
     (let v = getHydratedValue isNumberType (row (name column)) column
      in hydrateRow_loop isNumberType row rest
           (if name column = ''__proto__'' \<and> proto_setter
            then (hydratedRow, v \<noteq> JNull)
            else (hydratedRow(name column \<mapsto> v), proto_setter)))"

definition hydrateRow :: "(string \<Rightarrow> bool) \<Rightarrow> Row \<Rightarrow> Meta list \<Rightarrow> HydratedRow" where
  "hydrateRow isNumberType row meta =
     fst (hydrateRow_loop isNumberType row meta (Map.empty, True))"

section \<open>Dropping a table\<close>

text \<open>\<^verbatim>\<open>tableName.split('.')\<close>\<close>

fun split :: "char \<Rightarrow> string \<Rightarrow> string list" where
  "split sep [] = [[]]"
| "split sep (c # cs) =
     (if c = sep then [] # split sep cs
      else (case split sep cs of w # ws \<Rightarrow> (c # w) # ws | [] \<Rightarrow> [[c]]))"

text \<open>
  The name \<open>dropTable\<close> puts into the statement. The destructuring
  \<^verbatim>\<open>const [_, name] = tableName.split('.')\<close> takes the second element, \<open>undefined\<close>
  (printed as such by the template literal) if there were none.
\<close>

definition dropTable_name :: "string \<Rightarrow> string" where
  "dropTable_name tableName =
     (if CHR ''.'' \<in> set tableName
      then (case split (CHR ''.'') tableName of
              _ # name' # _ \<Rightarrow> name'
            | _ \<Rightarrow> ''undefined'')
      else tableName)"

definition dropTable_sql :: "string \<Rightarrow> string" where
  "dropTable_sql tableName = ''DROP TABLE '' @ dropTable_name tableName"

section \<open>The client library and the driver's state\<close>

text \<open>
  The client library is an opaque boundary: each of its asynchronous operations is a
  function of the remote side's state \<open>'w\<close> that returns the value the awaited promise
  settles with (\<open>Inl\<close> a rejection) and the new state. Connections, engines, statements
  and streams are handles.
\<close>

type_synonym conn = nat
type_synonym engine = nat
type_synonym statement = nat
type_synonym row_stream = nat
type_synonym meta_promise = nat
type_synonym ConnectionOptions = "string \<rightharpoonup> jsval"
type_synonym hydrate_callback = "Row \<Rightarrow> Meta list \<Rightarrow> HydratedRow"

record 'w client =
  connect :: "ConnectionOptions \<Rightarrow> 'w \<Rightarrow> (error + conn) \<times> 'w"
  getByName :: "jsval \<Rightarrow> 'w \<Rightarrow> (error + engine) \<times> 'w"
  startAndWait :: "engine \<Rightarrow> 'w \<Rightarrow> (error + unit) \<times> 'w"
  execute :: "conn \<Rightarrow> string \<Rightarrow> jsval list \<Rightarrow> hydrate_callback \<Rightarrow> 'w \<Rightarrow> (error + statement) \<times> 'w"
  fetchResult :: "statement \<Rightarrow> 'w \<Rightarrow> (error + HydratedRow list \<times> Meta list) \<times> 'w"
  streamResult :: "statement \<Rightarrow> 'w \<Rightarrow> (error + row_stream \<times> meta_promise) \<times> 'w"
  metaPromise :: "meta_promise \<Rightarrow> 'w \<Rightarrow> (error + Meta list) \<times> 'w"
  destroy :: "conn \<Rightarrow> 'w \<Rightarrow> (error + unit) \<times> 'w"
  isNumberType :: "string \<Rightarrow> bool"

text \<open>The calls the driver makes to the client, logged in the order they are issued.\<close>

datatype call =
    Connect
  | GetByName jsval
  | StartAndWait engine
  | Execute conn string "jsval list"
  | FetchResult statement
  | StreamResult statement
  | MetaPromise meta_promise
  | Destroy conn

text \<open>
  \<open>FireboltDriverConfiguration\<close>; its \<open>connection\<close> field is \<open>connectionOptions\<close> here,
  the name \<open>connection\<close> being kept for the driver's cached connection.
\<close>

record FireboltDriverConfiguration =
  readOnly :: jsval
  apiEndpoint :: jsval
  connectionOptions :: ConnectionOptions

text \<open>
  The driver instance. \<open>connection\<close> is \<^verbatim>\<open>this.connection: Promise<Connection> | null\<close>;
  between two operations of a sequential caller the cached promise is settled and is
  represented by the connection it resolved with. \<open>world\<close> is the remote side and
  \<open>calls\<close> the log of client calls.
\<close>

record 'w driver =
  config :: FireboltDriverConfiguration
  connection :: "conn option"
  world :: 'w
  calls :: "call list"

definition client_call :: "call \<Rightarrow> ('w \<Rightarrow> 'a \<times> 'w) \<Rightarrow> 'w driver \<Rightarrow> 'a \<times> 'w driver" where
  "client_call c f d = (case f (world d) of (r, w') \<Rightarrow> (r, d\<lparr>world := w', calls := calls d @ [c]\<rparr>))"

section \<open>Construction and \<open>readOnly\<close>\<close>

text \<open>
  The constructor's argument: each property is present with a value or absent.
  \<open>assertDataSource\<close>, \<open>getEnv\<close> and the client's \<open>version\<close> come from other packages and
  are parameters.
\<close>

record config_arg =
  arg_readOnly :: "jsval option"
  arg_apiEndpoint :: "jsval option"
  arg_connection :: "ConnectionOptions option"
  arg_dataSource :: "string option"

definition env_val :: "string option \<Rightarrow> jsval" where
  "env_val v = (case v of None \<Rightarrow> JUndefined | Some s \<Rightarrow> JStr s)"

text \<open>The object literal assigned to \<open>this.config\<close>: defaults, then the argument's properties.\<close>

definition merged_config ::
  "(string \<Rightarrow> string \<Rightarrow> string option) \<Rightarrow> string \<Rightarrow> config_arg \<Rightarrow> string \<Rightarrow> string \<Rightarrow>
   FireboltDriverConfiguration" where
  "merged_config getEnv version cfg dataSource username =
     (let auth =
            (if CHR ''@'' \<in> set username
             then JObj [(''username'', JStr username),
                        (''password'', env_val (getEnv ''dbPass'' dataSource))]
             else JObj [(''client_id'', JStr username),
                        (''client_secret'', env_val (getEnv ''dbPass'' dataSource))])
      in \<lparr>
        readOnly = (case arg_readOnly cfg of None \<Rightarrow> JBool True | Some v \<Rightarrow> v),
        apiEndpoint =
          (case arg_apiEndpoint cfg of
             Some v \<Rightarrow> v
           | None \<Rightarrow>
               (case getEnv ''fireboltApiEndpoint'' dataSource of
                  Some s \<Rightarrow> (if s \<noteq> [] then JStr s else JStr ''api.app.firebolt.io'')
                | None \<Rightarrow> JStr ''api.app.firebolt.io'')),
        connectionOptions =
          [''auth'' \<mapsto> auth,
           ''database'' \<mapsto> env_val (getEnv ''dbName'' dataSource),
           ''account'' \<mapsto> env_val (getEnv ''fireboltAccount'' dataSource),
           ''engineName'' \<mapsto> env_val (getEnv ''fireboltEngineName'' dataSource),
           ''engineEndpoint'' \<mapsto> env_val (getEnv ''fireboltEngineEndpoint'' dataSource),
           ''additionalParameters'' \<mapsto>
              JObj [(''userClients'',
                     JArr [JObj [(''name'', JStr ''CubeDev+Cube''),
                                 (''version'', JStr version)]])]]
          ++ (case arg_connection cfg of None \<Rightarrow> Map.empty | Some c \<Rightarrow> c)
      \<rparr>)"

text \<open>
  The constructor: the data source is the argument's or the asserted default; reading
  \<open>username.includes\<close> of an unset user name throws.
\<close>

definition constructor ::
  "(string \<Rightarrow> error + string) \<Rightarrow> (string \<Rightarrow> string \<Rightarrow> string option) \<Rightarrow> string \<Rightarrow>
   config_arg \<Rightarrow> error + FireboltDriverConfiguration" where
  "constructor assertDataSource getEnv version cfg =
     (case (case arg_dataSource cfg of
              Some ds \<Rightarrow> (if ds \<noteq> [] then Inr ds else assertDataSource ''default'')
            | None \<Rightarrow> assertDataSource ''default'') of
        Inl e \<Rightarrow> Inl e
      | Inr dataSource \<Rightarrow>
          (case getEnv ''dbUser'' dataSource of
             None \<Rightarrow> Inl (Error None ''TypeError'')
           | Some username \<Rightarrow> Inr (merged_config getEnv version cfg dataSource username)))"

definition new_driver :: "FireboltDriverConfiguration \<Rightarrow> 'w \<Rightarrow> 'w driver" where
  "new_driver cfg w = \<lparr>config = cfg, connection = None, world = w, calls = []\<rparr>"

definition readOnly_method :: "'w driver \<Rightarrow> bool" where
  "readOnly_method d = truthy (readOnly (config d))"

section \<open>Connection lifecycle\<close>

text \<open>\<^verbatim>\<open>this.config.connection.engineName\<close>\<close>

definition configured_engineName :: "FireboltDriverConfiguration \<Rightarrow> jsval" where
  "configured_engineName cfg =
     (case connectionOptions cfg ''engineName'' of None \<Rightarrow> JUndefined | Some v \<Rightarrow> v)"

definition ensureEngineRunning :: "'w client \<Rightarrow> 'w driver \<Rightarrow> (error + unit) \<times> 'w driver" where
  "ensureEngineRunning cl d =
     (let engineName = configured_engineName (config d)
      in if truthy engineName
         then (case client_call (GetByName engineName) (getByName cl engineName) d of
                 (Inl e, d1) \<Rightarrow> (Inl e, d1)
               | (Inr engine, d1) \<Rightarrow> client_call (StartAndWait engine) (startAndWait cl engine) d1)
         else (Inr (), d))"

definition initConnection :: "'w client \<Rightarrow> 'w driver \<Rightarrow> (error + conn) \<times> 'w driver" where
  "initConnection cl d =
     (case client_call Connect (connect cl (connectionOptions (config d))) d of
        (Inl e, d1) \<Rightarrow> (Inl e, d1\<lparr>connection := None\<rparr>)
      | (Inr c, d1) \<Rightarrow>
          (case ensureEngineRunning cl d1 of
             (Inl e, d2) \<Rightarrow> (Inl e, d2\<lparr>connection := None\<rparr>)
           | (Inr _, d2) \<Rightarrow> (Inr c, d2)))"

text \<open>
  \<open>getConnection\<close>: the promise \<open>initConnection\<close> returns is stored in \<open>this.connection\<close>
  and awaited; when it rejects, the handler of \<open>initConnection\<close> has cleared the field.
\<close>

definition getConnection :: "'w client \<Rightarrow> 'w driver \<Rightarrow> (error + conn) \<times> 'w driver" where
  "getConnection cl d =
     (case connection d of
        Some c \<Rightarrow> (Inr c, d)
      | None \<Rightarrow>
          (case initConnection cl d of
             (Inl e, d1) \<Rightarrow> (Inl e, d1)
           | (Inr c, d1) \<Rightarrow> (Inr c, d1\<lparr>connection := Some c\<rparr>)))"

definition release :: "'w client \<Rightarrow> 'w driver \<Rightarrow> (error + unit) \<times> 'w driver" where
  "release cl d =
     (case connection d of
        None \<Rightarrow> (Inr (), d)
      | Some c \<Rightarrow>
          (case client_call (Destroy c) (destroy cl c) d of
             (Inl e, d1) \<Rightarrow> (Inl e, d1)
           | (Inr _, d1) \<Rightarrow> (Inr (), d1\<lparr>connection := None\<rparr>)))"

section \<open>Query execution with one retry\<close>

text \<open>The body of the \<open>try\<close> block of \<open>queryResponse\<close>: one attempt.\<close>

definition queryResponse_try ::
  "'w client \<Rightarrow> string \<Rightarrow> jsval list \<Rightarrow> 'w driver \<Rightarrow>
   (error + HydratedRow list \<times> Meta list) \<times> 'w driver" where
  "queryResponse_try cl query parameters d =
     (case getConnection cl d of
        (Inl e, d1) \<Rightarrow> (Inl e, d1)
      | (Inr c, d1) \<Rightarrow>
          (case client_call (Execute c query parameters)
                  (execute cl c query parameters (hydrateRow (isNumberType cl))) d1 of
             (Inl e, d2) \<Rightarrow> (Inl e, d2)
           | (Inr statement, d2) \<Rightarrow>
               client_call (FetchResult statement) (fetchResult cl statement) d2))"

function queryResponse ::
  "'w client \<Rightarrow> string \<Rightarrow> jsval list \<Rightarrow> bool \<Rightarrow> 'w driver \<Rightarrow>
   (error + HydratedRow list \<times> Meta list) \<times> 'w driver" where
  "queryResponse cl query parameters retry d =
     (case queryResponse_try cl query parameters d of
        (Inr response, d1) \<Rightarrow> (Inr response, d1)
      | (Inl e, d1) \<Rightarrow>
          (if status e = Some 401 \<and> retry
           then queryResponse cl query parameters False (d1\<lparr>connection := None\<rparr>)
           else if status e = Some 404 \<and> retry
           then (case ensureEngineRunning cl d1 of
                   (Inl e', d2) \<Rightarrow> (Inl e', d2)
                 | (Inr _, d2) \<Rightarrow> queryResponse cl query parameters False d2)
           else (Inl e, d1)))"
  by pat_completeness auto
termination
  by (relation "measure (\<lambda>(cl, query, parameters, retry, d). if retry then 1 else 0)") auto

declare queryResponse.simps [simp del]

text \<open>The body of the \<open>try\<close> block of \<open>streamResponse\<close>.\<close>

definition streamResponse_try ::
  "'w client \<Rightarrow> (string \<Rightarrow> string) \<Rightarrow> string \<Rightarrow> jsval list \<Rightarrow> 'w driver \<Rightarrow>
   (error + row_stream \<times> (string \<times> generic_type) list) \<times> 'w driver" where
  "streamResponse_try cl super_toGenericType query parameters d =
     (case getConnection cl d of
        (Inl e, d1) \<Rightarrow> (Inl e, d1)
      | (Inr c, d1) \<Rightarrow>
          (case client_call (Execute c query parameters)
                  (execute cl c query parameters (hydrateRow (isNumberType cl))) d1 of
             (Inl e, d2) \<Rightarrow> (Inl e, d2)
           | (Inr statement, d2) \<Rightarrow>
               (case client_call (StreamResult statement) (streamResult cl statement) d2 of
                  (Inl e, d3) \<Rightarrow> (Inl e, d3)
                | (Inr (rowStream, mp), d3) \<Rightarrow>
                    (case client_call (MetaPromise mp) (metaPromise cl mp) d3 of
                       (Inl e, d4) \<Rightarrow> (Inl e, d4)
                     | (Inr meta, d4) \<Rightarrow>
                         (Inr (rowStream,
                               map (\<lambda>m. (name m, toGenericType super_toGenericType (type m))) meta),
                          d4)))))"

function streamResponse ::
  "'w client \<Rightarrow> (string \<Rightarrow> string) \<Rightarrow> string \<Rightarrow> jsval list \<Rightarrow> bool \<Rightarrow> 'w driver \<Rightarrow>
   (error + row_stream \<times> (string \<times> generic_type) list) \<times> 'w driver" where
  "streamResponse cl super_toGenericType query parameters retry d =
     (case streamResponse_try cl super_toGenericType query parameters d of
        (Inr result, d1) \<Rightarrow> (Inr result, d1)
      | (Inl e, d1) \<Rightarrow>
          (if status e = Some 401 \<and> retry
           then streamResponse cl super_toGenericType query parameters False (d1\<lparr>connection := None\<rparr>)
           else if status e = Some 404 \<and> retry
           then (case ensureEngineRunning cl d1 of
                   (Inl e', d2) \<Rightarrow> (Inl e', d2)
                 | (Inr _, d2) \<Rightarrow> streamResponse cl super_toGenericType query parameters False d2)
           else (Inl e, d1)))"
  by pat_completeness auto
termination
  by (relation "measure (\<lambda>(cl, super_toGenericType, query, parameters, retry, d). if retry then 1 else 0)") auto

declare streamResponse.simps [simp del]

text \<open>The public operations: \<open>retry\<close> takes its default \<open>true\<close>.\<close>

definition query :: "'w client \<Rightarrow> string \<Rightarrow> jsval list \<Rightarrow> 'w driver \<Rightarrow> (error + HydratedRow list) \<times> 'w driver" where
  "query cl sql parameters d =
     (case queryResponse cl sql parameters True d of
        (Inl e, d1) \<Rightarrow> (Inl e, d1)
      | (Inr (data, meta), d1) \<Rightarrow> (Inr data, d1))"

definition stream ::
  "'w client \<Rightarrow> (string \<Rightarrow> string) \<Rightarrow> string \<Rightarrow> jsval list \<Rightarrow> 'w driver \<Rightarrow>
   (error + row_stream \<times> (string \<times> generic_type) list) \<times> 'w driver" where
  "stream cl super_toGenericType sql parameters d =
     streamResponse cl super_toGenericType sql parameters True d"

definition dropTable :: "'w client \<Rightarrow> string \<Rightarrow> 'w driver \<Rightarrow> (error + HydratedRow list) \<times> 'w driver" where
  "dropTable cl tableName d = query cl (dropTable_sql tableName) [] d"

section \<open>Concurrent acquisition of the connection\<close>

text \<open>
  JavaScript runs one task at a time and a task gives up control only at an \<open>await\<close>.
  The interleavings of several \<open>getConnection\<close> calls are therefore sequences of the
  atomic segments between the awaits of \<open>getConnection\<close>, \<open>initConnection\<close> and
  \<open>ensureEngineRunning\<close>. Here \<open>this.connection\<close> holds a promise handle; the promises
  are those \<open>initConnection\<close> returned, in the order of their creation.
\<close>

type_synonym pid = nat
type_synonym caller = nat

text \<open>Where an activation of \<open>initConnection\<close> is suspended.\<close>

datatype stage = AwaitConnect | AwaitGetByName conn | AwaitStartAndWait conn

datatype promise = Creating stage | Resolved conn | Rejected error

datatype event =
    Call caller
  | ConnectSettles pid "error + conn"
  | GetByNameSettles pid "error + engine"
  | StartAndWaitSettles pid "error + unit"
  | Resume caller

record tasks =
  cached :: "pid option"
  promises :: "promise list"
  waiting :: "(caller \<times> pid) list"
  returned :: "(caller \<times> (error + conn)) list"
  connect_calls :: nat

definition no_tasks :: tasks where
  "no_tasks = \<lparr>cached = None, promises = [], waiting = [], returned = [], connect_calls = 0\<rparr>"

fun outcome :: "promise \<Rightarrow> (error + conn) option" where
  "outcome (Creating st) = None"
| "outcome (Resolved c) = Some (Inr c)"
| "outcome (Rejected e) = Some (Inl e)"

definition stage_of :: "tasks \<Rightarrow> pid \<Rightarrow> stage option" where
  "stage_of s p =
     (if p < length (promises s)
      then (case promises s ! p of Creating st \<Rightarrow> Some st | _ \<Rightarrow> None)
      else None)"

text \<open>The \<open>catch\<close> block of \<open>initConnection\<close>: clear the field, rethrow.\<close>

definition reject :: "pid \<Rightarrow> error \<Rightarrow> tasks \<Rightarrow> tasks" where
  "reject p e s = s\<lparr>cached := None, promises := (promises s)[p := Rejected e]\<rparr>"

definition settle :: "pid \<Rightarrow> promise \<Rightarrow> tasks \<Rightarrow> tasks" where
  "settle p v s = s\<lparr>promises := (promises s)[p := v]\<rparr>"

text \<open>
  One atomic segment. \<open>Call k\<close>: caller \<open>k\<close> enters \<open>getConnection\<close>; with a cached promise
  it awaits that promise, otherwise \<open>initConnection\<close> runs up to its first await (the
  connect call is issued), the new promise is stored and awaited. The three settling
  events continue the suspended \<open>initConnection\<close>; \<open>engineName\<close> tells whether an engine
  name is configured. \<open>Resume k\<close> continues a caller whose awaited promise is settled.
\<close>

fun step :: "bool \<Rightarrow> event \<Rightarrow> tasks \<Rightarrow> tasks" where
  "step engineName (Call k) s =
     (case cached s of
        Some p \<Rightarrow> s\<lparr>waiting := waiting s @ [(k, p)]\<rparr>
      | None \<Rightarrow>
          s\<lparr>cached := Some (length (promises s)),
            promises := promises s @ [Creating AwaitConnect],
            connect_calls := connect_calls s + 1,
            waiting := waiting s @ [(k, length (promises s))]\<rparr>)"
| "step engineName (ConnectSettles p r) s =
     (case stage_of s p of
        Some AwaitConnect \<Rightarrow>
          (case r of
             Inl e \<Rightarrow> reject p e s
           | Inr c \<Rightarrow> (if engineName then settle p (Creating (AwaitGetByName c)) s
                       else settle p (Resolved c) s))
      | _ \<Rightarrow> s)"
| "step engineName (GetByNameSettles p r) s =
     (case stage_of s p of
        Some (AwaitGetByName c) \<Rightarrow>
          (case r of
             Inl e \<Rightarrow> reject p e s
           | Inr engine \<Rightarrow> settle p (Creating (AwaitStartAndWait c)) s)
      | _ \<Rightarrow> s)"
| "step engineName (StartAndWaitSettles p r) s =
     (case stage_of s p of
        Some (AwaitStartAndWait c) \<Rightarrow>
          (case r of
             Inl e \<Rightarrow> reject p e s
           | Inr _ \<Rightarrow> settle p (Resolved c) s)
      | _ \<Rightarrow> s)"
| "step engineName (Resume k) s =
     (case map_of (waiting s) k of
        None \<Rightarrow> s
      | Some p \<Rightarrow>
          (case (if p < length (promises s) then outcome (promises s ! p) else None) of
             None \<Rightarrow> s
           | Some r \<Rightarrow> s\<lparr>waiting := remove1 (k, p) (waiting s),
                          returned := returned s @ [(k, r)]\<rparr>))"

definition run :: "bool \<Rightarrow> event list \<Rightarrow> tasks \<Rightarrow> tasks" where
  "run engineName es s = foldl (\<lambda>s e. step engineName e s) s es"

text \<open>
  The schedule of a single caller \<open>k\<close> on a driver without a connection, the client's
  operations settling as they do from the driver's remote state.
\<close>

definition solo_schedule :: "'w client \<Rightarrow> 'w driver \<Rightarrow> caller \<Rightarrow> event list" where
  "solo_schedule cl d k =
     (case connect cl (connectionOptions (config d)) (world d) of
        (r1, w1) \<Rightarrow>
          [Call k, ConnectSettles 0 r1]
          @ (case r1 of
               Inl e \<Rightarrow> []
             | Inr c \<Rightarrow>
                 (if truthy (configured_engineName (config d))
                  then (case getByName cl (configured_engineName (config d)) w1 of
                          (r2, w2) \<Rightarrow>
                            GetByNameSettles 0 r2
                            # (case r2 of
                                 Inl e \<Rightarrow> []
                               | Inr engine \<Rightarrow>
                                   [StartAndWaitSettles 0 (fst (startAndWait cl engine w2))]))
                  else []))
          @ [Resume k])"

fun is_call :: "event \<Rightarrow> bool" where
  "is_call (Call k) = True"
| "is_call _ = False"

fun is_failure :: "event \<Rightarrow> bool" where
  "is_failure (ConnectSettles p (Inl e)) = True"
| "is_failure (GetByNameSettles p (Inl e)) = True"
| "is_failure (StartAndWaitSettles p (Inl e)) = True"
| "is_failure _ = False"

text \<open>Schedules in which every caller arrives before a step of the creation has failed.\<close>

fun calls_before_failure :: "event list \<Rightarrow> bool" where
  "calls_before_failure [] = True"
| "calls_before_failure (e # es) =
     (if is_failure e then list_all (\<lambda>x. \<not> is_call x) es else calls_before_failure es)"

text \<open>The callers that have entered \<open>getConnection\<close>.\<close>

definition known :: "tasks \<Rightarrow> caller set" where
  "known s = fst ` set (waiting s) \<union> fst ` set (returned s)"

text \<open>
  Invariants: at most one promise was ever created and every caller hangs on it
  (\<open>shared\<close>); and, as long as no step of the creation has failed, the field still holds
  that promise (\<open>in_flight\<close>).
\<close>

definition shared :: "tasks \<Rightarrow> bool" where
  "shared s \<longleftrightarrow>
     length (promises s) \<le> 1 \<and> connect_calls s = length (promises s)
     \<and> (\<forall>(k, p) \<in> set (waiting s). p = 0 \<and> promises s \<noteq> [])
     \<and> (\<forall>(k, r) \<in> set (returned s). promises s \<noteq> [] \<and> outcome (promises s ! 0) = Some r)"

definition in_flight :: "tasks \<Rightarrow> bool" where
  "in_flight s \<longleftrightarrow>
     shared s \<and> (promises s = [] \<and> cached s = None
                 \<or> cached s = Some 0 \<and> (\<exists>v. promises s = [v] \<and> (\<forall>e. v \<noteq> Rejected e)))"

section \<open>Example clients\<close>

text \<open>
  A remote side that counts connections and executions, and a client scripted by the
  errors its operations are to fail with.
\<close>

record remote =
  connects :: nat
  executes :: nat

definition scripted_client ::
  "error option \<Rightarrow> error option \<Rightarrow> (nat \<Rightarrow> error option) \<Rightarrow> error option \<Rightarrow> remote client" where
  "scripted_client connect_error engine_error execute_error destroy_error = \<lparr>
     connect = (\<lambda>opts w. (case connect_error of Some e \<Rightarrow> Inl e | None \<Rightarrow> Inr (connects w),
                          w\<lparr>connects := connects w + 1\<rparr>)),
     getByName = (\<lambda>n w. (case engine_error of Some e \<Rightarrow> Inl e | None \<Rightarrow> Inr 0, w)),
     startAndWait = (\<lambda>engine w. (Inr (), w)),
     execute = (\<lambda>c q ps h w. (case execute_error (executes w) of
                                Some e \<Rightarrow> Inl e | None \<Rightarrow> Inr (executes w),
                              w\<lparr>executes := executes w + 1\<rparr>)),
     fetchResult = (\<lambda>st w. (Inr ([], []), w)),
     streamResult = (\<lambda>st w. (Inr (st, st), w)),
     metaPromise = (\<lambda>mp w. (Inr [], w)),
     destroy = (\<lambda>c w. (case destroy_error of Some e \<Rightarrow> Inl e | None \<Rightarrow> Inr (), w)),
     isNumberType = (\<lambda>t. t = ''long'')
   \<rparr>"

definition fails_first :: "int \<Rightarrow> nat \<Rightarrow> error option" where
  "fails_first code n = (if n = 0 then Some (Error (Some code) ''first'') else None)"

definition fails_always :: "int \<Rightarrow> nat \<Rightarrow> error option" where
  "fails_always code n = Some (Error (Some code) ''always'')"

definition example_config :: FireboltDriverConfiguration where
  "example_config = \<lparr>readOnly = JBool True, apiEndpoint = JStr ''api.app.firebolt.io'',
     connectionOptions = [''engineName'' \<mapsto> JStr ''engine'']\<rparr>"

definition example_driver :: "remote driver" where
  "example_driver = new_driver example_config \<lparr>connects = 0, executes = 0\<rparr>"

definition example_env :: "string \<Rightarrow> string \<Rightarrow> string option" where
  "example_env key dataSource = (if key = ''dbUser'' then Some ''user@example.com'' else None)"

definition example_arg :: config_arg where
  "example_arg = \<lparr>arg_readOnly = None, arg_apiEndpoint = None, arg_connection = None,
     arg_dataSource = None\<rparr>"

definition example_row :: Row where
  "example_row key =
     (if key = ''id'' then JInt 12345678901234567890
      else if key = ''total'' then JNull
      else if key = ''label'' then JStr ''a''
      else if key = ''amount'' then JInt 1000000000000000000000
      else JUndefined)"

definition example_meta :: "Meta list" where
  "example_meta = [\<lparr>name = ''id'', type = ''long''\<rparr>, \<lparr>name = ''total'', type = ''long''\<rparr>,
     \<lparr>name = ''label'', type = ''text''\<rparr>]"

section \<open>Verified properties\<close>

subsection \<open>Dropping a table\<close>

lemma split_nonempty: "split sep r \<noteq> []"
  by (induction r) (auto split: list.splits)

lemma split_append_sep: "sep \<notin> set a \<Longrightarrow> split sep (a @ sep # r) = a # split sep r"
  by (induction a) auto

lemma split_hd: "hd (split sep r) = takeWhile (\<lambda>c. c \<noteq> sep) r"
  by (induction r) (auto simp: split_nonempty split: list.splits)

lemma takeWhile_sep_free: "sep \<notin> set b \<Longrightarrow> takeWhile (\<lambda>c. c \<noteq> sep) b = b"
  by (induction b) auto

lemma takeWhile_sep_append: "sep \<notin> set b \<Longrightarrow> takeWhile (\<lambda>c. c \<noteq> sep) (b @ sep # r) = b"
  by (induction b) auto

text \<open>
  What follows the first dot, up to the next dot, is the name that reaches the statement.
\<close>

lemma dropTable_name_qualified:
  assumes "CHR ''.'' \<notin> set q"
  shows "dropTable_name (q @ CHR ''.'' # r) = takeWhile (\<lambda>c. c \<noteq> CHR ''.'') r"
proof -
  obtain w ws where sp: "split (CHR ''.'') r = w # ws"
    using split_nonempty [of "CHR ''.''" r] by (cases "split (CHR ''.'') r") auto
  have "w = takeWhile (\<lambda>c. c \<noteq> CHR ''.'') r"
    using split_hd [of "CHR ''.''" r] sp by simp
  then show ?thesis
    using assms sp by (simp add: dropTable_name_def split_append_sep)
qed

lemma dropTable_name_no_dot:
  assumes "CHR ''.'' \<in> set n"
  shows "CHR ''.'' \<notin> set (dropTable_name n)"
proof -
  from assms obtain q r where n: "n = q @ CHR ''.'' # r" and q: "CHR ''.'' \<notin> set q"
    by (meson split_list_first)
  have "dropTable_name n = takeWhile (\<lambda>c. c \<noteq> CHR ''.'') r"
    using dropTable_name_qualified [OF q, of r] n by simp
  moreover have "CHR ''.'' \<notin> set (takeWhile (\<lambda>c. c \<noteq> CHR ''.'') r)"
    by (auto dest: set_takeWhileD)
  ultimately show ?thesis by simp
qed

text \<open>
  C7. For a table name \<open>schema.table\<close>, \<open>dropTable\<close> runs the query \<open>DROP TABLE table\<close>:
  the qualifier and the dot are stripped. For every table name containing a dot, the
  qualifier before the first dot is stripped and the statement names the segment that
  follows it; that name contains no dot, so it is never the qualified name.
\<close>

theorem dropTable_strips_schema:
  "(CHR ''.'' \<notin> set schema \<and> CHR ''.'' \<notin> set table \<longrightarrow>
      dropTable cl (schema @ ''.'' @ table) d = query cl (''DROP TABLE '' @ table) [] d)
   \<and> (CHR ''.'' \<in> set tableName \<longrightarrow>
        (\<exists>qualifier rest.
            tableName = qualifier @ ''.'' @ rest \<and> CHR ''.'' \<notin> set qualifier
            \<and> dropTable cl tableName d =
                query cl (''DROP TABLE '' @ takeWhile (\<lambda>c. c \<noteq> CHR ''.'') rest) [] d)
        \<and> CHR ''.'' \<notin> set (dropTable_name tableName)
        \<and> dropTable_name tableName \<noteq> tableName)"
proof (intro conjI impI)
  assume "CHR ''.'' \<notin> set schema \<and> CHR ''.'' \<notin> set table"
  then show "dropTable cl (schema @ ''.'' @ table) d = query cl (''DROP TABLE '' @ table) [] d"
    by (simp add: dropTable_def dropTable_sql_def dropTable_name_qualified takeWhile_sep_free)
next
  assume dot: "CHR ''.'' \<in> set tableName"
  then obtain q r where n: "tableName = q @ CHR ''.'' # r" and q: "CHR ''.'' \<notin> set q"
    by (meson split_list_first)
  have "dropTable cl tableName d = query cl (''DROP TABLE '' @ takeWhile (\<lambda>c. c \<noteq> CHR ''.'') r) [] d"
    using n q by (simp add: dropTable_def dropTable_sql_def dropTable_name_qualified)
  with n q show "\<exists>qualifier rest.
            tableName = qualifier @ ''.'' @ rest \<and> CHR ''.'' \<notin> set qualifier
            \<and> dropTable cl tableName d =
                query cl (''DROP TABLE '' @ takeWhile (\<lambda>c. c \<noteq> CHR ''.'') rest) [] d"
    by (intro exI [of _ q] exI [of _ r]) simp
next
  assume dot: "CHR ''.'' \<in> set tableName"
  then show no_dot: "CHR ''.'' \<notin> set (dropTable_name tableName)"
    by (rule dropTable_name_no_dot)
  with dot show "dropTable_name tableName \<noteq> tableName" by auto
qed

theorem dropTable_strips_schema_witness:
  "CHR ''.'' \<notin> set ''schema'' \<and> CHR ''.'' \<notin> set ''table'' \<and> CHR ''.'' \<in> set ''schema.table''
   \<and> dropTable (scripted_client None None (\<lambda>n. None) None) ''schema.table'' example_driver =
       query (scripted_client None None (\<lambda>n. None) None) ''DROP TABLE table'' [] example_driver"
  using dropTable_strips_schema [of "''schema''" "''table''"
      "scripted_client None None (\<lambda>n. None) None" example_driver "''schema.table''"]
  by simp

text \<open>
  C9. For a table name with more than one dot, \<open>a.b.c\<close>, only the segment between the
  first and the second dot reaches the statement: the query is \<open>DROP TABLE b\<close>, and
  everything after the second dot is dropped too, so the name is not \<open>b.c\<close>.
\<close>

theorem dropTable_second_segment_only:
  assumes "CHR ''.'' \<notin> set a" and "CHR ''.'' \<notin> set b"
  shows "dropTable cl (a @ ''.'' @ b @ ''.'' @ c) d = query cl (''DROP TABLE '' @ b) [] d
       \<and> dropTable_name (a @ ''.'' @ b @ ''.'' @ c) = b
       \<and> dropTable_name (a @ ''.'' @ b @ ''.'' @ c) \<noteq> b @ ''.'' @ c"
  using assms
  by (simp add: dropTable_def dropTable_sql_def dropTable_name_qualified takeWhile_sep_append)

theorem dropTable_second_segment_only_witness:
  "CHR ''.'' \<notin> set ''a'' \<and> CHR ''.'' \<notin> set ''b''
   \<and> dropTable (scripted_client None None (\<lambda>n. None) None) ''a.b.c'' example_driver =
       query (scripted_client None None (\<lambda>n. None) None) ''DROP TABLE b'' [] example_driver
   \<and> dropTable_name ''a.b.c'' = ''b''"
  using dropTable_second_segment_only [of "''a''" "''b''"
      "scripted_client None None (\<lambda>n. None) None" "''c''" example_driver]
  by simp

subsection \<open>Type mapping\<close>

lemma paren_inner_paren: "paren_inner r = Some x \<Longrightarrow> CHR ''('' \<in> set r"
  by (cases r) (auto simp: paren_inner_def split: if_splits)

lemma match_here_paren: "match_here s = Some m \<Longrightarrow> CHR ''('' \<in> set s"
  by (auto simp: match_here_def split: if_splits dest!: paren_inner_paren in_set_dropD)

text \<open>A string that matches the pattern holds an opening parenthesis.\<close>

lemma COMPLEX_TYPE_match_paren: "COMPLEX_TYPE_match s = Some m \<Longrightarrow> CHR ''('' \<in> set s"
proof (induction s)
  case Nil
  then show ?case by simp
next
  case (Cons c cs)
  show ?case
  proof (cases "match_here (c # cs)")
    case None
    with Cons show ?thesis by simp
  next
    case (Some m')
    then show ?thesis by (rule match_here_paren)
  qed
qed

text \<open>No inherited property name holds one, so for such a string \<open>in\<close> asks for its own key.\<close>

lemma in_table_paren: "CHR ''('' \<in> set k \<Longrightarrow> in_table k \<longleftrightarrow> FireboltTypeToGeneric k \<noteq> None"
  by (auto simp: in_table_def Object_prototype_names_def)

text \<open>
  C5. For a type string that is not a key of the static table and matches the wrapper
  pattern, with inner type \<open>innerType\<close>, \<open>toGenericType\<close> looks the whole (outer) string up
  in the table again and returns the table entry of the inner type only if that lookup
  hits; otherwise it returns the base mapping of the whole string. The outer string not
  being a key, the result is always the base mapping.
\<close>

theorem toGenericType_wrapped:
  assumes "FireboltTypeToGeneric columnType = None"
    and "COMPLEX_TYPE_match columnType = Some (outerType, innerType)"
  shows "toGenericType super_toGenericType columnType =
           (if in_table columnType then table_get innerType
            else Generic (super_toGenericType columnType))
         \<and> \<not> in_table columnType
         \<and> toGenericType super_toGenericType columnType = Generic (super_toGenericType columnType)"
proof -
  from assms(2) have "CHR ''('' \<in> set columnType" by (rule COMPLEX_TYPE_match_paren)
  with assms(1) have "\<not> in_table columnType" by (simp add: in_table_paren)
  with assms(2) show ?thesis by (simp add: toGenericType_def)
qed

theorem toGenericType_wrapped_witness:
  "FireboltTypeToGeneric ''nullable(long)'' = None
   \<and> COMPLEX_TYPE_match ''nullable(long)'' = Some (''nullable'', ''long'')
   \<and> table_get ''long'' = Generic ''bigint''
   \<and> toGenericType (\<lambda>t. t) ''nullable(long)'' = Generic ''nullable(long)''"
proof -
  have h1: "FireboltTypeToGeneric ''nullable(long)'' = None"
    by (simp add: FireboltTypeToGeneric_def)
  have h2: "COMPLEX_TYPE_match ''nullable(long)'' = Some (''nullable'', ''long'')"
    by (simp add: match_here_def paren_inner_def line_terminator_def)
  have h3: "table_get ''long'' = Generic ''bigint''"
    by (simp add: table_get_def FireboltTypeToGeneric_def)
  from toGenericType_wrapped [OF h1 h2, of "\<lambda>t. t"] h1 h2 h3 show ?thesis
    by simp
qed

subsection \<open>Row hydration\<close>

lemma digit_value_digit_char: "d < 10 \<Longrightarrow> digit_value (digit_char d) = d"
proof -
  assume "d < 10"
  then have "d \<in> {0, 1, 2, 3, 4, 5, 6, 7, 8, 9}" by auto
  then show ?thesis
    by (auto simp: digit_value_def digit_char_def)
qed

lemma dec_value_snoc: "dec_value (s @ [c]) = 10 * dec_value s + digit_value c"
  by (simp add: dec_value_def)

text \<open>\<open>dec_nat\<close> writes the decimal numeral of its argument.\<close>

lemma dec_value_dec_nat: "dec_value (dec_nat n) = n"
proof (induction n rule: dec_nat.induct)
  case (1 n)
  show ?case
  proof (cases "n < 10")
    case True
    then show ?thesis
      by (subst dec_nat.simps) (simp add: dec_value_def digit_value_digit_char)
  next
    case False
    then have "dec_value (dec_nat (n div 10)) = n div 10" using 1 by simp
    with False show ?thesis
      by (subst dec_nat.simps) (simp add: dec_value_snoc digit_value_digit_char)
  qed
qed

lemma dec_value_dec_int: "0 \<le> i \<Longrightarrow> dec_value (dec_int i) = nat i"
  by (simp add: dec_int_def dec_value_dec_nat)

lemma hydrateRow_loop_other:
  "k \<notin> name ` set cols \<Longrightarrow> fst (hydrateRow_loop isNum row cols (acc, f)) k = acc k"
  by (induction cols arbitrary: acc f) (auto simp: Let_def)

lemma hydrateRow_loop_append:
  "hydrateRow_loop isNum row (pre @ post) obj =
     hydrateRow_loop isNum row post (hydrateRow_loop isNum row pre obj)"
proof (induction pre arbitrary: obj)
  case Nil
  show ?case by simp
next
  case (Cons column pre)
  obtain acc f where "obj = (acc, f)" by (cases obj)
  with Cons show ?case by (simp add: Let_def)
qed

text \<open>The last column of a name decides the property of that name.\<close>

lemma hydrateRow_last_column:
  assumes "name column \<notin> name ` set post" and "name column \<noteq> ''__proto__''"
  shows "hydrateRow isNum row (pre @ column # post) (name column) =
           Some (getHydratedValue isNum (row (name column)) column)"
proof -
  obtain acc f where pre: "hydrateRow_loop isNum row pre (Map.empty, True) = (acc, f)"
    by (cases "hydrateRow_loop isNum row pre (Map.empty, True)")
  have "hydrateRow isNum row (pre @ column # post) (name column) =
          fst (hydrateRow_loop isNum row post
                 (acc(name column \<mapsto> getHydratedValue isNum (row (name column)) column), f))
            (name column)"
    using assms(2) pre by (simp add: hydrateRow_def hydrateRow_loop_append Let_def)
  also have "\<dots> = Some (getHydratedValue isNum (row (name column)) column)"
    using assms(1) by (simp add: hydrateRow_loop_other)
  finally show ?thesis .
qed

lemma int_string_plain: "\<bar>i\<bar> < 10 ^ 21 \<Longrightarrow> int_string i = dec_int i"
  by (auto simp: int_string_def nat_string_def dec_int_def)

lemma int_string_exponent:
  "10 ^ 21 \<le> \<bar>i\<bar> \<Longrightarrow>
     int_string i = (if i < 0 then ''-'' else []) @ exponent_string (nat \<bar>i\<bar>)"
  by (auto simp: int_string_def nat_string_def)

text \<open>
  C6 (as amended). For a column of the metadata (the only or the last one of its name,
  and not named \<open>__proto__\<close>): if its type is numeric and the raw value is not null, the
  hydrated row holds the string the template literal gives for the value. For an integer
  \<open>i\<close> below \<open>10^21\<close> in magnitude that is its plain decimal numeral, from \<open>10^21\<close> on it is
  exponent notation. A null value stays null, and the value of a non-numeric column is
  passed through unchanged.
\<close>

theorem hydrateRow_numeric_to_string:
  assumes "meta = pre @ column # post"
    and "name column \<notin> name ` set post"
    and "name column \<noteq> ''__proto__''"
  shows "(isNum (type column) \<and> row (name column) \<noteq> JNull \<longrightarrow>
            hydrateRow isNum row meta (name column) = Some (JStr (to_string (row (name column)))))
       \<and> (isNum (type column) \<and> row (name column) = JInt i \<and> \<bar>i\<bar> < 10 ^ 21 \<longrightarrow>
            hydrateRow isNum row meta (name column) = Some (JStr (dec_int i))
            \<and> (0 \<le> i \<longrightarrow> dec_value (dec_int i) = nat i))
       \<and> (isNum (type column) \<and> row (name column) = JInt i \<and> 10 ^ 21 \<le> \<bar>i\<bar> \<longrightarrow>
            hydrateRow isNum row meta (name column) =
              Some (JStr ((if i < 0 then ''-'' else []) @ exponent_string (nat \<bar>i\<bar>))))
       \<and> (row (name column) = JNull \<longrightarrow>
            hydrateRow isNum row meta (name column) = Some JNull)
       \<and> (\<not> isNum (type column) \<longrightarrow>
            hydrateRow isNum row meta (name column) = Some (row (name column)))"
proof -
  have stored: "hydrateRow isNum row meta (name column) =
      Some (getHydratedValue isNum (row (name column)) column)"
    using assms hydrateRow_last_column [of column post isNum row pre] by simp
  show ?thesis
    unfolding stored
    by (auto simp: getHydratedValue_def int_string_plain int_string_exponent dec_value_dec_int)
qed

theorem hydrateRow_numeric_to_string_witness:
  "example_meta = [] @ \<lparr>name = ''id'', type = ''long''\<rparr> #
      [\<lparr>name = ''total'', type = ''long''\<rparr>, \<lparr>name = ''label'', type = ''text''\<rparr>]
   \<and> ''id'' \<notin> name ` set [\<lparr>name = ''total'', type = ''long''\<rparr>, \<lparr>name = ''label'', type = ''text''\<rparr>]
   \<and> ''id'' \<noteq> ''__proto__''
   \<and> example_row ''id'' = JInt 12345678901234567890
   \<and> \<bar>12345678901234567890 :: int\<bar> < 10 ^ 21
   \<and> hydrateRow (\<lambda>t. t = ''long'') example_row example_meta ''id'' =
        Some (JStr ''12345678901234567890'')
   \<and> hydrateRow (\<lambda>t. t = ''long'') example_row example_meta ''total'' = Some JNull
   \<and> hydrateRow (\<lambda>t. t = ''long'') example_row example_meta ''label'' = Some (JStr ''a'')"
proof -
  have h1: "example_meta = [] @ \<lparr>name = ''id'', type = ''long''\<rparr> #
      [\<lparr>name = ''total'', type = ''long''\<rparr>, \<lparr>name = ''label'', type = ''text''\<rparr>]"
    by (simp add: example_meta_def)
  have h2: "name \<lparr>name = ''id'', type = ''long''\<rparr> \<notin>
      name ` set [\<lparr>name = ''total'', type = ''long''\<rparr>, \<lparr>name = ''label'', type = ''text''\<rparr>]"
    by simp
  have h3: "name \<lparr>name = ''id'', type = ''long''\<rparr> \<noteq> ''__proto__''"
    by simp
  have v: "example_row ''id'' = JInt 12345678901234567890"
    by (simp add: example_row_def)
  have small: "\<bar>12345678901234567890 :: int\<bar> < 10 ^ 21"
    by simp
  have digits: "dec_int 12345678901234567890 = ''12345678901234567890''"
    by (simp add: dec_int_def dec_nat.simps digit_char_def)
  have id: "hydrateRow (\<lambda>t. t = ''long'') example_row example_meta ''id'' =
        Some (JStr ''12345678901234567890'')"
    using hydrateRow_numeric_to_string [OF h1 h2 h3, of "\<lambda>t. t = ''long''" example_row
        12345678901234567890] v small digits
    by (simp add: int_string_plain)
  have total: "hydrateRow (\<lambda>t. t = ''long'') example_row example_meta ''total'' = Some JNull"
    by (simp add: hydrateRow_def example_meta_def example_row_def getHydratedValue_def)
  have label: "hydrateRow (\<lambda>t. t = ''long'') example_row example_meta ''label'' = Some (JStr ''a'')"
    by (simp add: hydrateRow_def example_meta_def example_row_def getHydratedValue_def)
  from h1 h2 v small id total label show ?thesis by simp
qed

text \<open>
  The claim as first stated, the decimal numeral for every value, fails from \<open>10^21\<close> on:
  the value \<open>1000000000000000000000\<close> of a \<open>decimal(38, 0)\<close> column is hydrated to
  \<open>1e+21\<close>, not to its numeral.
\<close>

theorem hydrateRow_decimal_counterexample:
  "hydrateRow (\<lambda>t. t = ''decimal(38, 0)'') example_row
       [\<lparr>name = ''amount'', type = ''decimal(38, 0)''\<rparr>] ''amount'' = Some (JStr ''1e+21'')
   \<and> example_row ''amount'' = JInt 1000000000000000000000
   \<and> dec_int 1000000000000000000000 = ''1000000000000000000000''"
  by (simp add: hydrateRow_def example_row_def getHydratedValue_def Let_def int_string_def
        nat_string_def exponent_string_def strip_zeros_def dec_int_def dec_nat.simps digit_char_def)

subsection \<open>The default of \<open>readOnly\<close>\<close>

text \<open>
  C10. A driver constructed from an argument without a \<open>readOnly\<close> property reports
  \<open>readOnly() = true\<close>; with the property present, \<open>readOnly()\<close> is the boolean coercion
  of the configured value.
\<close>

theorem readOnly_defaults_to_true:
  assumes "constructor assertDataSource getEnv version cfg = Inr c"
  shows "readOnly_method (new_driver c w) =
           (case arg_readOnly cfg of None \<Rightarrow> True | Some v \<Rightarrow> truthy v)"
proof -
  from assms obtain dataSource username
    where "c = merged_config getEnv version cfg dataSource username"
    by (auto simp: constructor_def split: sum.splits option.splits)
  then have "readOnly c = (case arg_readOnly cfg of None \<Rightarrow> JBool True | Some v \<Rightarrow> v)"
    by (simp add: merged_config_def Let_def)
  then show ?thesis
    by (simp add: readOnly_method_def new_driver_def split: option.splits)
qed

theorem readOnly_defaults_to_true_witness:
  "\<not> isl (constructor Inr example_env ''1.0'' example_arg)
   \<and> arg_readOnly example_arg = None
   \<and> readOnly_method (new_driver (projr (constructor Inr example_env ''1.0'' example_arg)) ()) = True"
proof -
  have ok: "constructor Inr example_env ''1.0'' example_arg =
              Inr (projr (constructor Inr example_env ''1.0'' example_arg))"
    by (simp add: constructor_def example_env_def example_arg_def)
  have r: "arg_readOnly example_arg = None" by (simp add: example_arg_def)
  from readOnly_defaults_to_true [OF ok, of "()"] r
  have "readOnly_method (new_driver (projr (constructor Inr example_env ''1.0'' example_arg)) ()) = True"
    by simp
  moreover from ok have "\<not> isl (constructor Inr example_env ''1.0'' example_arg)"
    by (metis sum.disc(2))
  ultimately show ?thesis using r by simp
qed

subsection \<open>The retry policy\<close>

text \<open>With \<open>retry\<close> false the \<open>catch\<close> block rethrows: the call is one attempt.\<close>

lemma queryResponse_False: "queryResponse cl q ps False d = queryResponse_try cl q ps d"
  by (subst queryResponse.simps) (auto split: prod.splits sum.splits)

lemma streamResponse_False:
  "streamResponse cl base q ps False d = streamResponse_try cl base q ps d"
  by (subst streamResponse.simps) (auto split: prod.splits sum.splits)

text \<open>With no cached connection, the first client call of an attempt is \<open>connect\<close>.\<close>

lemma getConnection_fresh_calls:
  "connection d = None \<Longrightarrow> \<exists>cs. calls (snd (getConnection cl d)) = calls d @ Connect # cs"
  by (auto simp: getConnection_def initConnection_def client_call_def ensureEngineRunning_def Let_def
           split: prod.splits sum.splits)

lemma queryResponse_try_fresh_calls:
  "connection d = None \<Longrightarrow>
     \<exists>cs. calls (snd (queryResponse_try cl q ps d)) = calls d @ Connect # cs"
  using getConnection_fresh_calls [of d cl]
  by (auto simp: queryResponse_try_def client_call_def split: prod.splits sum.splits)

lemma streamResponse_try_fresh_calls:
  "connection d = None \<Longrightarrow>
     \<exists>cs. calls (snd (streamResponse_try cl base q ps d)) = calls d @ Connect # cs"
  using getConnection_fresh_calls [of d cl]
  by (auto simp: streamResponse_try_def client_call_def split: prod.splits sum.splits)

text \<open>
  C1. When the first attempt of a top-level execution (\<open>retry\<close> true), buffered or
  streamed, fails with status 401, the driver clears the cached connection and the
  result of the execution is that of exactly one more attempt, made from the cleared
  state with no further retry: the attempt starts with a \<open>connect\<close> call, and when it
  fails, with 401 or any other error, that error is the result.
\<close>

theorem retry_once_on_401:
  "(queryResponse_try cl q ps d = (Inl e, d1) \<and> status e = Some 401 \<longrightarrow>
      queryResponse cl q ps True d = queryResponse_try cl q ps (d1\<lparr>connection := None\<rparr>)
      \<and> (\<exists>cs. calls (snd (queryResponse cl q ps True d)) = calls d1 @ Connect # cs)
      \<and> (\<forall>e2 d2. queryResponse_try cl q ps (d1\<lparr>connection := None\<rparr>) = (Inl e2, d2) \<longrightarrow>
             queryResponse cl q ps True d = (Inl e2, d2)))
   \<and> (streamResponse_try cl base q ps d = (Inl e', d1') \<and> status e' = Some 401 \<longrightarrow>
      streamResponse cl base q ps True d = streamResponse_try cl base q ps (d1'\<lparr>connection := None\<rparr>)
      \<and> (\<exists>cs. calls (snd (streamResponse cl base q ps True d)) = calls d1' @ Connect # cs)
      \<and> (\<forall>e2 d2. streamResponse_try cl base q ps (d1'\<lparr>connection := None\<rparr>) = (Inl e2, d2) \<longrightarrow>
             streamResponse cl base q ps True d = (Inl e2, d2)))"
proof (intro conjI impI)
  assume a: "queryResponse_try cl q ps d = (Inl e, d1) \<and> status e = Some 401"
  then show eq: "queryResponse cl q ps True d = queryResponse_try cl q ps (d1\<lparr>connection := None\<rparr>)"
    by (subst queryResponse.simps) (simp add: queryResponse_False)
  show "\<exists>cs. calls (snd (queryResponse cl q ps True d)) = calls d1 @ Connect # cs"
    using queryResponse_try_fresh_calls [of "d1\<lparr>connection := None\<rparr>" cl q ps] eq by simp
  show "\<forall>e2 d2. queryResponse_try cl q ps (d1\<lparr>connection := None\<rparr>) = (Inl e2, d2) \<longrightarrow>
             queryResponse cl q ps True d = (Inl e2, d2)"
    using eq by simp
next
  assume a: "streamResponse_try cl base q ps d = (Inl e', d1') \<and> status e' = Some 401"
  then show eq: "streamResponse cl base q ps True d =
      streamResponse_try cl base q ps (d1'\<lparr>connection := None\<rparr>)"
    by (subst streamResponse.simps) (simp add: streamResponse_False)
  show "\<exists>cs. calls (snd (streamResponse cl base q ps True d)) = calls d1' @ Connect # cs"
    using streamResponse_try_fresh_calls [of "d1'\<lparr>connection := None\<rparr>" cl base q ps] eq by simp
  show "\<forall>e2 d2. streamResponse_try cl base q ps (d1'\<lparr>connection := None\<rparr>) = (Inl e2, d2) \<longrightarrow>
             streamResponse cl base q ps True d = (Inl e2, d2)"
    using eq by simp
qed

lemmas example_run_defs =
  queryResponse_try_def streamResponse_try_def getConnection_def initConnection_def
  ensureEngineRunning_def client_call_def scripted_client_def example_driver_def
  configured_engineName_def new_driver_def example_config_def fails_first_def fails_always_def
  Let_def

theorem retry_once_on_401_witness:
  "fst (queryResponse_try (scripted_client None None (fails_first 401) None) ''SELECT 1'' []
          example_driver) = Inl (Error (Some 401) ''first'')
   \<and> fst (queryResponse (scripted_client None None (fails_first 401) None) ''SELECT 1'' [] True
          example_driver) = Inr ([], [])
   \<and> calls (snd (queryResponse (scripted_client None None (fails_first 401) None) ''SELECT 1'' [] True
          example_driver)) =
        [Connect, GetByName (JStr ''engine''), StartAndWait 0, Execute 0 ''SELECT 1'' [],
         Connect, GetByName (JStr ''engine''), StartAndWait 0, Execute 1 ''SELECT 1'' [],
         FetchResult 1]
   \<and> fst (streamResponse_try (scripted_client None None (fails_always 401) None) (\<lambda>t. t) ''SELECT 1'' []
          example_driver) = Inl (Error (Some 401) ''always'')
   \<and> fst (streamResponse (scripted_client None None (fails_always 401) None) (\<lambda>t. t) ''SELECT 1'' [] True
          example_driver) = Inl (Error (Some 401) ''always'')
   \<and> calls (snd (streamResponse (scripted_client None None (fails_always 401) None) (\<lambda>t. t) ''SELECT 1'' [] True
          example_driver)) =
        [Connect, GetByName (JStr ''engine''), StartAndWait 0, Execute 0 ''SELECT 1'' [],
         Connect, GetByName (JStr ''engine''), StartAndWait 0, Execute 1 ''SELECT 1'' []]"
proof -
  let ?once = "scripted_client None None (fails_first 401) None"
  let ?always = "scripted_client None None (fails_always 401) None"
  let ?d1 = "\<lparr>config = example_config, connection = Some 0,
              world = \<lparr>connects = 1, executes = 1\<rparr>,
              calls = [Connect, GetByName (JStr ''engine''), StartAndWait 0, Execute 0 ''SELECT 1'' []]\<rparr>"
  have q1: "queryResponse_try ?once ''SELECT 1'' [] example_driver = (Inl (Error (Some 401) ''first''), ?d1)"
    by (simp add: example_run_defs)
  have s1: "streamResponse_try ?always (\<lambda>t. t) ''SELECT 1'' [] example_driver =
              (Inl (Error (Some 401) ''always''), ?d1)"
    by (simp add: example_run_defs)
  have q2: "queryResponse ?once ''SELECT 1'' [] True example_driver =
              queryResponse_try ?once ''SELECT 1'' [] (?d1\<lparr>connection := None\<rparr>)"
    using retry_once_on_401 [where cl = ?once and q = "''SELECT 1''" and ps = "[]"
        and d = example_driver and e = "Error (Some 401) ''first''" and ?d1.0 = ?d1] q1
    by simp
  have s2: "streamResponse ?always (\<lambda>t. t) ''SELECT 1'' [] True example_driver =
              streamResponse_try ?always (\<lambda>t. t) ''SELECT 1'' [] (?d1\<lparr>connection := None\<rparr>)"
    using retry_once_on_401 [where cl = ?always and base = "\<lambda>t. t" and q = "''SELECT 1''"
        and ps = "[]" and d = example_driver and e' = "Error (Some 401) ''always''"
        and d1' = ?d1] s1
    by simp
  show ?thesis
    unfolding q2 s2 q1 s1 by (simp add: example_run_defs)
qed

text \<open>
  C2 (as amended). When the first attempt of a top-level execution, buffered or
  streamed, fails with status 404, the driver calls \<open>ensureEngineRunning\<close>. If that call
  completes, the result of the execution is that of exactly one more attempt with no
  further retry, so a second 404 propagates. If \<open>ensureEngineRunning\<close> itself fails, its
  error is the result and no second attempt is made.
\<close>

theorem retry_once_on_404_after_engine_start:
  "(queryResponse_try cl q ps d = (Inl e, d1) \<and> status e = Some 404 \<longrightarrow>
      (\<forall>d2. ensureEngineRunning cl d1 = (Inr (), d2) \<longrightarrow>
             queryResponse cl q ps True d = queryResponse_try cl q ps d2)
      \<and> (\<forall>e2 d2. ensureEngineRunning cl d1 = (Inl e2, d2) \<longrightarrow>
             queryResponse cl q ps True d = (Inl e2, d2)))
   \<and> (streamResponse_try cl base q ps d = (Inl e', d1') \<and> status e' = Some 404 \<longrightarrow>
      (\<forall>d2. ensureEngineRunning cl d1' = (Inr (), d2) \<longrightarrow>
             streamResponse cl base q ps True d = streamResponse_try cl base q ps d2)
      \<and> (\<forall>e2 d2. ensureEngineRunning cl d1' = (Inl e2, d2) \<longrightarrow>
             streamResponse cl base q ps True d = (Inl e2, d2)))"
proof (intro conjI impI allI)
  fix d2 assume "queryResponse_try cl q ps d = (Inl e, d1) \<and> status e = Some 404"
    and "ensureEngineRunning cl d1 = (Inr (), d2)"
  then show "queryResponse cl q ps True d = queryResponse_try cl q ps d2"
    by (subst queryResponse.simps) (simp add: queryResponse_False)
next
  fix e2 d2 assume "queryResponse_try cl q ps d = (Inl e, d1) \<and> status e = Some 404"
    and "ensureEngineRunning cl d1 = (Inl e2, d2)"
  then show "queryResponse cl q ps True d = (Inl e2, d2)"
    by (subst queryResponse.simps) simp
next
  fix d2 assume "streamResponse_try cl base q ps d = (Inl e', d1') \<and> status e' = Some 404"
    and "ensureEngineRunning cl d1' = (Inr (), d2)"
  then show "streamResponse cl base q ps True d = streamResponse_try cl base q ps d2"
    by (subst streamResponse.simps) (simp add: streamResponse_False)
next
  fix e2 d2 assume "streamResponse_try cl base q ps d = (Inl e', d1') \<and> status e' = Some 404"
    and "ensureEngineRunning cl d1' = (Inl e2, d2)"
  then show "streamResponse cl base q ps True d = (Inl e2, d2)"
    by (subst streamResponse.simps) simp
qed

theorem retry_once_on_404_after_engine_start_witness:
  "fst (queryResponse_try (scripted_client None None (fails_first 404) None) ''SELECT 1'' []
          example_driver) = Inl (Error (Some 404) ''first'')
   \<and> fst (queryResponse (scripted_client None None (fails_first 404) None) ''SELECT 1'' [] True
          example_driver) = Inr ([], [])
   \<and> calls (snd (queryResponse (scripted_client None None (fails_first 404) None) ''SELECT 1'' [] True
          example_driver)) =
        [Connect, GetByName (JStr ''engine''), StartAndWait 0, Execute 0 ''SELECT 1'' [],
         GetByName (JStr ''engine''), StartAndWait 0, Execute 0 ''SELECT 1'' [], FetchResult 1]
   \<and> fst (streamResponse_try (scripted_client None None (fails_always 404) None) (\<lambda>t. t) ''SELECT 1'' []
          example_driver) = Inl (Error (Some 404) ''always'')
   \<and> fst (streamResponse (scripted_client None None (fails_always 404) None) (\<lambda>t. t) ''SELECT 1'' [] True
          example_driver) = Inl (Error (Some 404) ''always'')
   \<and> calls (snd (streamResponse (scripted_client None None (fails_always 404) None) (\<lambda>t. t) ''SELECT 1'' [] True
          example_driver)) =
        [Connect, GetByName (JStr ''engine''), StartAndWait 0, Execute 0 ''SELECT 1'' [],
         GetByName (JStr ''engine''), StartAndWait 0, Execute 0 ''SELECT 1'' []]"
proof -
  let ?once = "scripted_client None None (fails_first 404) None"
  let ?always = "scripted_client None None (fails_always 404) None"
  let ?d1 = "\<lparr>config = example_config, connection = Some 0,
              world = \<lparr>connects = 1, executes = 1\<rparr>,
              calls = [Connect, GetByName (JStr ''engine''), StartAndWait 0, Execute 0 ''SELECT 1'' []]\<rparr>"
  let ?d2 = "\<lparr>config = example_config, connection = Some 0,
              world = \<lparr>connects = 1, executes = 1\<rparr>,
              calls = [Connect, GetByName (JStr ''engine''), StartAndWait 0, Execute 0 ''SELECT 1'' [],
                       GetByName (JStr ''engine''), StartAndWait 0]\<rparr>"
  have q1: "queryResponse_try ?once ''SELECT 1'' [] example_driver = (Inl (Error (Some 404) ''first''), ?d1)"
    by (simp add: example_run_defs)
  have s1: "streamResponse_try ?always (\<lambda>t. t) ''SELECT 1'' [] example_driver =
              (Inl (Error (Some 404) ''always''), ?d1)"
    by (simp add: example_run_defs)
  have g1: "ensureEngineRunning ?once ?d1 = (Inr (), ?d2)"
    by (simp add: example_run_defs)
  have g2: "ensureEngineRunning ?always ?d1 = (Inr (), ?d2)"
    by (simp add: example_run_defs)
  have q2: "queryResponse ?once ''SELECT 1'' [] True example_driver =
              queryResponse_try ?once ''SELECT 1'' [] ?d2"
    using retry_once_on_404_after_engine_start [where cl = ?once and q = "''SELECT 1''" and ps = "[]"
        and d = example_driver and e = "Error (Some 404) ''first''" and ?d1.0 = ?d1] q1 g1
    by simp
  have s2: "streamResponse ?always (\<lambda>t. t) ''SELECT 1'' [] True example_driver =
              streamResponse_try ?always (\<lambda>t. t) ''SELECT 1'' [] ?d2"
    using retry_once_on_404_after_engine_start [where cl = ?always and base = "\<lambda>t. t"
        and q = "''SELECT 1''" and ps = "[]" and d = example_driver
        and e' = "Error (Some 404) ''always''" and d1' = ?d1] s1 g2
    by simp
  show ?thesis
    unfolding q2 s2 q1 s1 by (simp add: example_run_defs)
qed

text \<open>
  The claim as first stated, a retry after every first 404, fails when the engine
  cannot be started: with a cached connection, a query that fails with 404 and an engine
  lookup that fails with 500, the execution ends with the lookup's error after a single
  \<open>execute\<close> call.
\<close>

theorem retry_on_404_counterexample:
  "fst (queryResponse_try
          (scripted_client None (Some (Error (Some 500) ''engine'')) (fails_always 404) None)
          ''SELECT 1'' [] (example_driver\<lparr>connection := Some 7\<rparr>)) = Inl (Error (Some 404) ''always'')
   \<and> fst (queryResponse
          (scripted_client None (Some (Error (Some 500) ''engine'')) (fails_always 404) None)
          ''SELECT 1'' [] True (example_driver\<lparr>connection := Some 7\<rparr>)) = Inl (Error (Some 500) ''engine'')
   \<and> calls (snd (queryResponse
          (scripted_client None (Some (Error (Some 500) ''engine'')) (fails_always 404) None)
          ''SELECT 1'' [] True (example_driver\<lparr>connection := Some 7\<rparr>))) =
        [Execute 7 ''SELECT 1'' [], GetByName (JStr ''engine'')]"
  by (subst queryResponse.simps, subst queryResponse.simps) (simp add: example_run_defs)

subsection \<open>Connection lifecycle\<close>

text \<open>
  C4. When the creation of the connection fails, in the connect call or in the engine
  check after it, the cached connection is cleared and the failure is the result of the
  acquisition: no connection stays cached, and the next acquisition starts with a new
  connect call.
\<close>

theorem failed_creation_clears_cache:
  "(\<forall>e d'. initConnection cl d = (Inl e, d') \<longrightarrow> connection d' = None)
   \<and> (connection d = None \<longrightarrow>
        (\<forall>e d'. getConnection cl d = (Inl e, d') \<longrightarrow>
             connection d' = None
             \<and> (\<exists>cs. calls (snd (getConnection cl d')) = calls d' @ Connect # cs))
      \<and> (\<forall>e w'. connect cl (connectionOptions (config d)) (world d) = (Inl e, w') \<longrightarrow>
             getConnection cl d =
               (Inl e, d\<lparr>world := w', calls := calls d @ [Connect], connection := None\<rparr>))
      \<and> (\<forall>c w' e d2. connect cl (connectionOptions (config d)) (world d) = (Inr c, w')
             \<and> ensureEngineRunning cl (d\<lparr>world := w', calls := calls d @ [Connect]\<rparr>) = (Inl e, d2) \<longrightarrow>
             getConnection cl d = (Inl e, d2\<lparr>connection := None\<rparr>)))"
proof (intro conjI impI allI)
  fix e d' assume "initConnection cl d = (Inl e, d')"
  then show "connection d' = None"
    by (auto simp: initConnection_def split: prod.splits sum.splits)
next
  fix e d' assume none: "connection d = None" and fail: "getConnection cl d = (Inl e, d')"
  then show cleared: "connection d' = None"
    by (auto simp: getConnection_def initConnection_def split: prod.splits sum.splits)
  show "\<exists>cs. calls (snd (getConnection cl d')) = calls d' @ Connect # cs"
    using cleared by (rule getConnection_fresh_calls)
next
  fix e w' assume "connection d = None"
    and "connect cl (connectionOptions (config d)) (world d) = (Inl e, w')"
  then show "getConnection cl d =
      (Inl e, d\<lparr>world := w', calls := calls d @ [Connect], connection := None\<rparr>)"
    by (simp add: getConnection_def initConnection_def client_call_def)
next
  fix c w' e d2 assume "connection d = None"
    and "connect cl (connectionOptions (config d)) (world d) = (Inr c, w')
           \<and> ensureEngineRunning cl (d\<lparr>world := w', calls := calls d @ [Connect]\<rparr>) = (Inl e, d2)"
  then show "getConnection cl d = (Inl e, d2\<lparr>connection := None\<rparr>)"
    by (simp add: getConnection_def initConnection_def client_call_def)
qed

theorem failed_creation_clears_cache_witness:
  "connection example_driver = None
   \<and> getConnection (scripted_client (Some (Error (Some 500) ''down'')) None (\<lambda>n. None) None)
        example_driver =
       (Inl (Error (Some 500) ''down''),
        \<lparr>config = example_config, connection = None, world = \<lparr>connects = 1, executes = 0\<rparr>,
          calls = [Connect]\<rparr>)
   \<and> getConnection (scripted_client None (Some (Error (Some 503) ''engine'')) (\<lambda>n. None) None)
        example_driver =
       (Inl (Error (Some 503) ''engine''),
        \<lparr>config = example_config, connection = None, world = \<lparr>connects = 1, executes = 0\<rparr>,
          calls = [Connect, GetByName (JStr ''engine'')]\<rparr>)"
proof -
  let ?down = "scripted_client (Some (Error (Some 500) ''down'')) None (\<lambda>n. None) None"
  let ?stopped = "scripted_client None (Some (Error (Some 503) ''engine'')) (\<lambda>n. None) None"
  have none: "connection example_driver = None"
    by (simp add: example_driver_def new_driver_def)
  have c1: "connect ?down (connectionOptions (config example_driver)) (world example_driver) =
              (Inl (Error (Some 500) ''down''), \<lparr>connects = 1, executes = 0\<rparr>)"
    by (simp add: example_run_defs)
  have c2: "connect ?stopped (connectionOptions (config example_driver)) (world example_driver) =
              (Inr 0, \<lparr>connects = 1, executes = 0\<rparr>)
            \<and> ensureEngineRunning ?stopped
                 (example_driver\<lparr>world := \<lparr>connects = 1, executes = 0\<rparr>,
                                 calls := calls example_driver @ [Connect]\<rparr>) =
               (Inl (Error (Some 503) ''engine''),
                \<lparr>config = example_config, connection = None,
                  world = \<lparr>connects = 1, executes = 0\<rparr>,
                  calls = [Connect, GetByName (JStr ''engine'')]\<rparr>)"
    by (simp add: example_run_defs)
  from failed_creation_clears_cache [of ?down example_driver] none c1
  have r1: "getConnection ?down example_driver =
       (Inl (Error (Some 500) ''down''),
        example_driver\<lparr>world := \<lparr>connects = 1, executes = 0\<rparr>,
          calls := calls example_driver @ [Connect], connection := None\<rparr>)"
    by blast
  from failed_creation_clears_cache [of ?stopped example_driver] none c2
  have r2: "getConnection ?stopped example_driver =
       (Inl (Error (Some 503) ''engine''),
        \<lparr>config = example_config, connection = None, world = \<lparr>connects = 1, executes = 0\<rparr>,
          calls = [Connect, GetByName (JStr ''engine'')]\<rparr>\<lparr>connection := None\<rparr>)"
    by blast
  show ?thesis
    unfolding r1 r2 by (simp add: example_driver_def new_driver_def)
qed

text \<open>
  C8. \<open>release\<close> is idempotent: calling it twice in a row gives what calling it once
  gives, the second call adding no error and changing nothing. Without a cached
  connection it is a no-op that returns; whenever it returns, no connection remains
  cached; \<open>destroy\<close> is called only on a cached connection, once; and \<open>release\<close> raises
  nothing of its own, it fails only with a failure of that \<open>destroy\<close> call.
\<close>

theorem release_idempotent:
  "(case release cl d of
      (Inl e, d1) \<Rightarrow> (Inl e, d1)
    | (Inr u, d1) \<Rightarrow> release cl d1) = release cl d
   \<and> (connection d = None \<longrightarrow> release cl d = (Inr (), d))
   \<and> (\<forall>d'. release cl d = (Inr (), d') \<longrightarrow>
          connection d' = None \<and> release cl d' = (Inr (), d'))
   \<and> calls (snd (release cl d)) =
        calls d @ (case connection d of None \<Rightarrow> [] | Some c \<Rightarrow> [Destroy c])
   \<and> (\<forall>e d'. release cl d = (Inl e, d') \<longrightarrow>
          (\<exists>c. connection d = Some c \<and> fst (destroy cl c (world d)) = Inl e))"
  by (auto simp: release_def client_call_def split: option.splits prod.splits sum.splits)

theorem release_idempotent_witness:
  "release (scripted_client None None (\<lambda>n. None) None) (example_driver\<lparr>connection := Some 3\<rparr>) =
     (Inr (), example_driver\<lparr>calls := [Destroy 3]\<rparr>)
   \<and> connection (example_driver\<lparr>calls := [Destroy 3]\<rparr>) = None
   \<and> release (scripted_client None None (\<lambda>n. None) None) (example_driver\<lparr>calls := [Destroy 3]\<rparr>) =
       (Inr (), example_driver\<lparr>calls := [Destroy 3]\<rparr>)"
proof -
  let ?cl = "scripted_client None None (\<lambda>n. None) None"
  have first: "release ?cl (example_driver\<lparr>connection := Some 3\<rparr>) =
      (Inr (), example_driver\<lparr>calls := [Destroy 3]\<rparr>)"
    by (simp add: release_def example_run_defs)
  from release_idempotent [where cl = ?cl and d = "example_driver\<lparr>connection := Some 3\<rparr>"] first
  have "connection (example_driver\<lparr>calls := [Destroy 3]\<rparr>) = None
      \<and> release ?cl (example_driver\<lparr>calls := [Destroy 3]\<rparr>) =
          (Inr (), example_driver\<lparr>calls := [Destroy 3]\<rparr>)"
    by blast
  with first show ?thesis by simp
qed

subsection \<open>Concurrent acquisition\<close>

lemma stage_of_shared:
  assumes "shared s" "stage_of s p = Some st"
  shows "p = 0 \<and> promises s = [Creating st] \<and> returned s = []"
proof -
  from assms(2) have lt: "p < length (promises s)" and pr: "promises s ! p = Creating st"
    by (auto simp: stage_of_def split: if_splits promise.splits)
  from assms(1) have le: "length (promises s) \<le> 1" by (simp add: shared_def)
  with lt have p0: "p = 0" by simp
  from lt le have "length (promises s) = 1" by simp
  then obtain v where v: "promises s = [v]" by (cases "promises s") auto
  with pr p0 have pv: "promises s = [Creating st]" by simp
  have "returned s = []"
  proof (cases "returned s")
    case Nil then show ?thesis .
  next
    case (Cons kr rest)
    obtain k r where "kr = (k, r)" by (cases kr)
    with Cons have "(k, r) \<in> set (returned s)" by simp
    with assms(1) have "outcome (promises s ! 0) = Some r" by (auto simp: shared_def)
    with pv show ?thesis by simp
  qed
  with p0 pv show ?thesis by simp
qed

lemma shared_update:
  assumes "shared s" "stage_of s p = Some st"
  shows "shared (s\<lparr>promises := (promises s)[p := v]\<rparr>)"
    and "shared (s\<lparr>cached := x, promises := (promises s)[p := v]\<rparr>)"
  using assms(1) stage_of_shared [OF assms] by (simp_all add: shared_def)

text \<open>Every segment but a call into an empty cache keeps the single promise shared.\<close>

lemma shared_step:
  assumes "shared s" "\<not> is_call e"
  shows "shared (step b e s)"
proof (cases e)
  case (Call k)
  with assms show ?thesis by simp
next
  case (ConnectSettles p r)
  show ?thesis
  proof (cases "stage_of s p")
    case None
    with ConnectSettles assms(1) show ?thesis by simp
  next
    case (Some st)
    with ConnectSettles assms(1) shared_update [OF assms(1) Some] show ?thesis
      by (simp add: reject_def settle_def split: stage.splits sum.splits)
  qed
next
  case (GetByNameSettles p r)
  show ?thesis
  proof (cases "stage_of s p")
    case None
    with GetByNameSettles assms(1) show ?thesis by simp
  next
    case (Some st)
    with GetByNameSettles assms(1) shared_update [OF assms(1) Some] show ?thesis
      by (simp add: reject_def settle_def split: stage.splits sum.splits)
  qed
next
  case (StartAndWaitSettles p r)
  show ?thesis
  proof (cases "stage_of s p")
    case None
    with StartAndWaitSettles assms(1) show ?thesis by simp
  next
    case (Some st)
    with StartAndWaitSettles assms(1) shared_update [OF assms(1) Some] show ?thesis
      by (simp add: reject_def settle_def split: stage.splits sum.splits)
  qed
next
  case (Resume k)
  show ?thesis
  proof (cases "map_of (waiting s) k")
    case None
    with Resume assms(1) show ?thesis by simp
  next
    case (Some p)
    then have mem: "(k, p) \<in> set (waiting s)" by (rule map_of_SomeD)
    with assms(1) have p0: "p = 0" and ne: "promises s \<noteq> []" by (auto simp: shared_def)
    show ?thesis
    proof (cases "outcome (promises s ! 0)")
      case None
      with Resume Some p0 assms(1) show ?thesis by simp
    next
      case (Some r)
      have sub: "set (remove1 (k, p) (waiting s)) \<subseteq> set (waiting s)" by (rule set_remove1_subset)
      have "step b e s = s\<lparr>waiting := remove1 (k, p) (waiting s), returned := returned s @ [(k, r)]\<rparr>"
        using Resume \<open>map_of (waiting s) k = Some p\<close> Some p0 ne by simp
      moreover have "shared (s\<lparr>waiting := remove1 (k, p) (waiting s), returned := returned s @ [(k, r)]\<rparr>)"
        using assms(1) sub Some ne unfolding shared_def by (simp; blast)
      ultimately show ?thesis by simp
    qed
  qed
qed

lemma shared_empty:
  assumes "shared s" "promises s = []"
  shows "waiting s = []" and "returned s = []" and "connect_calls s = 0"
proof -
  have "\<And>x. x \<notin> set (waiting s)" using assms by (fastforce simp: shared_def)
  then show "waiting s = []" by (cases "waiting s") auto
  have "\<And>x. x \<notin> set (returned s)" using assms by (fastforce simp: shared_def)
  then show "returned s = []" by (cases "returned s") auto
  show "connect_calls s = 0" using assms by (simp add: shared_def)
qed

lemma step_Resume_frame:
  "cached (step b (Resume k) s) = cached s \<and> promises (step b (Resume k) s) = promises s"
  by (simp split: option.splits)

lemma in_flight_Call:
  assumes "in_flight s"
  shows "in_flight (step b (Call k) s)"
proof (cases "cached s")
  case None
  with assms have sh: "shared s" and em: "promises s = []" by (auto simp: in_flight_def)
  from shared_empty [OF sh em] None em show ?thesis
    by (simp add: in_flight_def shared_def)
next
  case (Some p)
  with assms obtain v where sh: "shared s" and p0: "p = 0" and pv: "promises s = [v]"
      and nr: "\<forall>e. v \<noteq> Rejected e"
    by (auto simp: in_flight_def)
  have "shared (s\<lparr>waiting := waiting s @ [(k, 0)]\<rparr>)"
    using sh pv by (simp add: shared_def)
  with Some p0 pv nr show ?thesis by (simp add: in_flight_def)
qed

lemma in_flight_settle:
  assumes "in_flight s" "stage_of s p = Some st" "\<forall>e. v \<noteq> Rejected e"
  shows "in_flight (settle p v s)"
proof -
  from assms(1) have sh: "shared s" by (simp add: in_flight_def)
  from stage_of_shared [OF sh assms(2)] have p0: "p = 0" and pv: "promises s = [Creating st]"
    by simp_all
  from assms(1) pv have sl: "cached s = Some 0" by (auto simp: in_flight_def)
  have "shared (settle p v s)"
    using shared_update(1) [OF sh assms(2)] by (simp add: settle_def)
  with p0 pv sl assms(3) show ?thesis by (simp add: in_flight_def settle_def)
qed

text \<open>While no step of the creation fails, the field keeps holding the one promise.\<close>

lemma in_flight_step:
  assumes "in_flight s" "\<not> is_failure e"
  shows "in_flight (step b e s)"
proof (cases e)
  case (Call k)
  with assms(1) show ?thesis using in_flight_Call by simp
next
  case (ConnectSettles p r)
  show ?thesis
  proof (cases "stage_of s p")
    case None
    with ConnectSettles assms(1) show ?thesis by simp
  next
    case (Some st)
    from assms(2) ConnectSettles obtain c where r: "r = Inr c" by (cases r) auto
    show ?thesis
      using ConnectSettles Some r assms(1)
        in_flight_settle [OF assms(1) Some, of "Creating (AwaitGetByName c)"]
        in_flight_settle [OF assms(1) Some, of "Resolved c"]
      by (simp split: stage.splits)
  qed
next
  case (GetByNameSettles p r)
  show ?thesis
  proof (cases "stage_of s p")
    case None
    with GetByNameSettles assms(1) show ?thesis by simp
  next
    case (Some st)
    from assms(2) GetByNameSettles obtain g where r: "r = Inr g" by (cases r) auto
    show ?thesis
    proof (cases st)
      case (AwaitGetByName c)
      then show ?thesis
        using GetByNameSettles Some r
          in_flight_settle [OF assms(1) Some, of "Creating (AwaitStartAndWait c)"]
        by simp
    qed (use GetByNameSettles Some assms(1) in simp_all)
  qed
next
  case (StartAndWaitSettles p r)
  show ?thesis
  proof (cases "stage_of s p")
    case None
    with StartAndWaitSettles assms(1) show ?thesis by simp
  next
    case (Some st)
    from assms(2) StartAndWaitSettles obtain u where r: "r = Inr u" by (cases r) auto
    show ?thesis
    proof (cases st)
      case (AwaitStartAndWait c)
      then show ?thesis
        using StartAndWaitSettles Some r
          in_flight_settle [OF assms(1) Some, of "Resolved c"]
        by simp
    qed (use StartAndWaitSettles Some assms(1) in simp_all)
  qed
next
  case (Resume k)
  from assms(1) have sh: "shared s" by (simp add: in_flight_def)
  have "shared (step b (Resume k) s)" using shared_step [OF sh, of "Resume k" b] by simp
  with assms(1) step_Resume_frame [of b k s] Resume show ?thesis
    by (simp add: in_flight_def)
qed

lemma shared_run:
  "shared s \<Longrightarrow> list_all (\<lambda>x. \<not> is_call x) es \<Longrightarrow> shared (run b es s)"
  by (induction es arbitrary: s) (simp_all add: run_def shared_step)

lemma in_flight_run:
  "in_flight s \<Longrightarrow> calls_before_failure es \<Longrightarrow> shared (run b es s)"
proof (induction es arbitrary: s)
  case Nil
  then show ?case by (simp add: run_def in_flight_def)
next
  case (Cons e es)
  show ?case
  proof (cases "is_failure e")
    case True
    then have nc: "\<not> is_call e" by (cases e) auto
    from Cons.prems(1) have "shared s" by (simp add: in_flight_def)
    then have "shared (step b e s)" using nc by (rule shared_step)
    moreover from Cons.prems(2) True have "list_all (\<lambda>x. \<not> is_call x) es" by simp
    ultimately have "shared (run b es (step b e s))" by (rule shared_run)
    then show ?thesis by (simp add: run_def)
  next
    case False
    with Cons.prems have "in_flight (step b e s)" and "calls_before_failure es"
      by (simp_all add: in_flight_step)
    then have "shared (run b es (step b e s))" by (rule Cons.IH)
    then show ?thesis by (simp add: run_def)
  qed
qed

text \<open>A caller that has entered \<open>getConnection\<close> is waiting or has returned, ever after.\<close>

lemma known_step: "known s \<subseteq> known (step b e s)"
proof (cases e)
  case (Resume k)
  show ?thesis
  proof (cases "map_of (waiting s) k")
    case None
    with Resume show ?thesis by simp
  next
    case (Some p)
    show ?thesis
    proof (cases "if p < length (promises s) then outcome (promises s ! p) else None")
      case None
      with Resume Some show ?thesis by simp
    next
      case (Some r)
      have "fst ` set (waiting s) \<subseteq> insert k (fst ` set (remove1 (k, p) (waiting s)))"
      proof
        fix x assume "x \<in> fst ` set (waiting s)"
        then obtain q where xq: "(x, q) \<in> set (waiting s)" by auto
        show "x \<in> insert k (fst ` set (remove1 (k, p) (waiting s)))"
        proof (cases "(x, q) = (k, p)")
          case True then show ?thesis by simp
        next
          case False
          with xq have "(x, q) \<in> set (remove1 (k, p) (waiting s))" by simp
          then show ?thesis by force
        qed
      qed
      with Resume \<open>map_of (waiting s) k = Some p\<close> Some show ?thesis
        by (auto simp: known_def)
    qed
  qed
qed (auto simp: known_def reject_def settle_def split: option.splits stage.splits sum.splits)

lemma known_run: "known s \<subseteq> known (run b es s)"
proof (induction es arbitrary: s)
  case Nil show ?case by (simp add: run_def)
next
  case (Cons e es)
  have "known s \<subseteq> known (step b e s)" by (rule known_step)
  also have "\<dots> \<subseteq> known (run b es (step b e s))" by (rule Cons.IH)
  finally show ?case by (simp add: run_def)
qed

lemma known_Call: "k \<in> known (step b (Call k) s)"
  by (simp add: known_def split: option.splits)

lemma called_known: "Call k \<in> set es \<Longrightarrow> k \<in> known (run b es s)"
proof (induction es arbitrary: s)
  case Nil then show ?case by simp
next
  case (Cons e es)
  show ?case
  proof (cases "e = Call k")
    case True
    have "k \<in> known (step b (Call k) s)" by (rule known_Call)
    with known_run [of "step b (Call k) s" b es] True show ?thesis
      by (auto simp: run_def)
  next
    case False
    with Cons.prems have "Call k \<in> set es" by simp
    then have "k \<in> known (run b es (step b e s))" by (rule Cons.IH)
    then show ?thesis by (simp add: run_def)
  qed
qed

lemma in_flight_no_tasks: "in_flight no_tasks"
  by (simp add: in_flight_def shared_def no_tasks_def)

text \<open>Once the promise is resolved, resuming a waiting caller hands it the connection.\<close>

lemma resume_delivers:
  assumes "promises s = [Resolved c]" and "\<forall>(k', p) \<in> set (waiting s). p = 0"
    and "k \<in> fst ` set (waiting s)"
  shows "(k, Inr c) \<in> set (returned (step b (Resume k) s))"
proof -
  from assms(3) obtain p where "map_of (waiting s) k = Some p"
    by (cases "map_of (waiting s) k") (auto simp: map_of_eq_None_iff)
  moreover from this have "(k, p) \<in> set (waiting s)" by (rule map_of_SomeD)
  with assms(2) have "p = 0" by auto
  ultimately show ?thesis using assms(1) by simp
qed

text \<open>
  C3. In every schedule of concurrent \<open>getConnection\<close> calls that starts with no
  connection and in which the callers arrive before any step of the creation has
  failed, exactly one connect call is issued: one promise is created, every caller
  awaits that same promise or has returned with its outcome, any two callers that
  returned a connection returned the same one, and once the promise is resolved every
  waiting caller returns its connection when resumed.
\<close>

theorem concurrent_acquisition_shares_one_connect:
  assumes "calls_before_failure es" and "Call k \<in> set es"
  shows "connect_calls (run engineName es no_tasks) = 1
       \<and> (\<exists>v. promises (run engineName es no_tasks) = [v]
            \<and> (\<forall>(k', p) \<in> set (waiting (run engineName es no_tasks)). p = 0)
            \<and> (\<forall>(k', r) \<in> set (returned (run engineName es no_tasks)). outcome v = Some r)
            \<and> (\<forall>k' c. v = Resolved c \<and> k' \<in> fst ` set (waiting (run engineName es no_tasks)) \<longrightarrow>
                  (k', Inr c) \<in> set (returned (step engineName (Resume k') (run engineName es no_tasks)))))
       \<and> (\<forall>k'. Call k' \<in> set es \<longrightarrow> k' \<in> known (run engineName es no_tasks))
       \<and> (\<forall>k1 k2 c1 c2. (k1, Inr c1) \<in> set (returned (run engineName es no_tasks))
             \<and> (k2, Inr c2) \<in> set (returned (run engineName es no_tasks)) \<longrightarrow> c1 = c2)"
proof -
  let ?s = "run engineName es no_tasks"
  have sh: "shared ?s" using in_flight_no_tasks assms(1) by (rule in_flight_run)
  have kn: "\<forall>k'. Call k' \<in> set es \<longrightarrow> k' \<in> known ?s" by (simp add: called_known)
  with assms(2) have "k \<in> known ?s" by simp
  then have "waiting ?s \<noteq> [] \<or> returned ?s \<noteq> []" by (auto simp: known_def)
  with shared_empty(1,2) [OF sh] have "promises ?s \<noteq> []" by blast
  moreover from sh have "length (promises ?s) \<le> 1" by (simp add: shared_def)
  ultimately obtain v where pv: "promises ?s = [v]"
    by (cases "promises ?s") auto
  from sh pv have cc: "connect_calls ?s = 1" by (simp add: shared_def)
  from sh pv have w: "\<forall>(k', p) \<in> set (waiting ?s). p = 0"
    and r: "\<forall>(k', r) \<in> set (returned ?s). outcome v = Some r"
    by (auto simp: shared_def)
  have live: "\<forall>k' c. v = Resolved c \<and> k' \<in> fst ` set (waiting ?s) \<longrightarrow>
                  (k', Inr c) \<in> set (returned (step engineName (Resume k') ?s))"
  proof (intro allI impI)
    fix k' c assume a: "v = Resolved c \<and> k' \<in> fst ` set (waiting ?s)"
    with pv have "promises ?s = [Resolved c]" by simp
    then show "(k', Inr c) \<in> set (returned (step engineName (Resume k') ?s))"
      using w a by (intro resume_delivers) simp_all
  qed
  have same: "\<forall>k1 k2 c1 c2. (k1, Inr c1) \<in> set (returned ?s)
             \<and> (k2, Inr c2) \<in> set (returned ?s) \<longrightarrow> c1 = c2"
  proof (intro allI impI)
    fix k1 k2 c1 c2
    assume a: "(k1, Inr c1) \<in> set (returned ?s) \<and> (k2, Inr c2) \<in> set (returned ?s)"
    from a r have "outcome v = Some (Inr c1)" by blast
    moreover from a r have "outcome v = Some (Inr c2)" by blast
    ultimately show "c1 = c2" by simp
  qed
  from cc pv w r live kn same show ?thesis by blast
qed

lemmas example_schedule_defs = run_def no_tasks_def stage_of_def settle_def reject_def

theorem concurrent_acquisition_shares_one_connect_witness:
  "calls_before_failure
     [Call 1, Call 2, ConnectSettles 0 (Inr 7), Call 3, GetByNameSettles 0 (Inr 0),
      StartAndWaitSettles 0 (Inr ()), Resume 1, Resume 2, Resume 3]
   \<and> Call 1 \<in> set [Call 1, Call 2, ConnectSettles 0 (Inr 7), Call 3, GetByNameSettles 0 (Inr 0),
      StartAndWaitSettles 0 (Inr ()), Resume 1, Resume 2, Resume 3]
   \<and> connect_calls (run True
       [Call 1, Call 2, ConnectSettles 0 (Inr 7), Call 3, GetByNameSettles 0 (Inr 0),
        StartAndWaitSettles 0 (Inr ()), Resume 1, Resume 2, Resume 3] no_tasks) = 1
   \<and> returned (run True
       [Call 1, Call 2, ConnectSettles 0 (Inr 7), Call 3, GetByNameSettles 0 (Inr 0),
        StartAndWaitSettles 0 (Inr ()), Resume 1, Resume 2, Resume 3] no_tasks) =
       [(1, Inr 7), (2, Inr 7), (3, Inr 7)]"
proof -
  let ?es = "[Call 1, Call 2, ConnectSettles 0 (Inr 7), Call 3, GetByNameSettles 0 (Inr 0),
      StartAndWaitSettles 0 (Inr ()), Resume 1, Resume 2, Resume 3]"
  have h1: "calls_before_failure ?es" by simp
  have h2: "Call 1 \<in> set ?es" by simp
  from concurrent_acquisition_shares_one_connect [OF h1 h2, of True]
  have "connect_calls (run True ?es no_tasks) = 1" by blast
  moreover have "returned (run True ?es no_tasks) = [(1, Inr 7), (2, Inr 7), (3, Inr 7)]"
    by (simp add: example_schedule_defs)
  ultimately show ?thesis using h1 h2 by blast
qed

text \<open>
  The premise on the schedule is needed: a caller that arrives after the creation has
  failed finds the field cleared and starts a second connect call.
\<close>

lemma late_caller_connects_again:
  "connect_calls (run True [Call 1, ConnectSettles 0 (Inl (Error (Some 500) ''down'')), Call 2]
     no_tasks) = 2"
  by (simp add: example_schedule_defs)

text \<open>
  The schedule of a single caller gives what the sequential \<open>getConnection\<close> gives: the
  same outcome, and a cleared field exactly when the sequential run leaves no connection.
\<close>

lemma solo_schedule_agrees:
  assumes "connection d = None"
  shows "returned (run (truthy (configured_engineName (config d))) (solo_schedule cl d k) no_tasks) =
           [(k, fst (getConnection cl d))]
       \<and> (cached (run (truthy (configured_engineName (config d))) (solo_schedule cl d k) no_tasks) = None
            \<longleftrightarrow> connection (snd (getConnection cl d)) = None)"
  using assms
  by (auto simp: solo_schedule_def getConnection_def initConnection_def ensureEngineRunning_def
        client_call_def run_def no_tasks_def stage_of_def settle_def reject_def Let_def
      split: prod.splits sum.splits)

end
